theory Spec2Isabelle
  imports Complex_Main "HOL-Library.Log_Nat"
begin

section \<open>JavaScript values, strings and numbers as the OCR hook uses them\<close>

text \<open>
  The development embeds \<^verbatim>\<open>src/src/hooks/useOcr.js\<close> and the OCR slice of
  \<^verbatim>\<open>src/src/state/useStore.js\<close>.

  A JavaScript string is a \<^typ>\<open>string\<close>; one \<^typ>\<open>char\<close> stands for one
  code unit of text in the Latin-1 range. The two punctuation marks of the log templates
  that lie outside this range (the ellipsis and the em dash) are written as their UTF-8
  bytes.
\<close>

definition ellipsis :: string where
  "ellipsis = [CHR 0xE2, CHR 0x80, CHR 0xA6]"

definition emdash :: string where
  "emdash = [CHR 0xE2, CHR 0x80, CHR 0x94]"

subsection \<open>Thrown values\<close>

text \<open>
  A \<^verbatim>\<open>catch\<close> clause can catch any JavaScript value, and \<^verbatim>\<open>errMsg\<close> is applied
  to whatever was caught. Such a value is \<^verbatim>\<open>undefined\<close>, \<^verbatim>\<open>null\<close>, a string, or
  any other value (a number, a boolean, a symbol, an object, a function, ...). A value of
  the last kind is described by what the operations that the hook performs on it yield:

  \<^item> its truthiness;
  \<^item> the outcome of reading its \<^verbatim>\<open>message\<close> property: a value, or the value that
    the read throws (an accessor, a proxy trap);
  \<^item> the outcome of \<^verbatim>\<open>JSON.stringify\<close>: it throws (a cyclic object), it returns
    \<^verbatim>\<open>undefined\<close> (a function, a symbol), or it returns a text;
  \<^item> the outcome of \<^verbatim>\<open>String(v)\<close>: a text, or the value that the conversion throws
    (an object without a usable \<^verbatim>\<open>toString\<close>);
  \<^item> the outcome of the conversion that a template literal applies to it: again a text
    or a thrown value. The two conversions differ on a symbol, which \<^verbatim>\<open>String\<close>
    describes and a template literal refuses with a \<^verbatim>\<open>TypeError\<close>.

  In a sum, \<open>Inl\<close> carries the value thrown and \<open>Inr\<close> the value returned.
\<close>

datatype json_result = JsonThrows | JsonUndefined | JsonText string

datatype jsval =
    JUndefined
  | JNull
  | JStr string
  | JOther bool "jsval + jsval" json_result "jsval + string" "jsval + string"

fun truthy :: "jsval \<Rightarrow> bool" where
  "truthy JUndefined = False"
| "truthy JNull = False"
| "truthy (JStr s) = (s \<noteq> [])"
| "truthy (JOther t m j s lit) = t"

text \<open>\<^verbatim>\<open>String(v)\<close>\<close>

fun String :: "jsval \<Rightarrow> jsval + string" where
  "String JUndefined = Inr ''undefined''"
| "String JNull = Inr ''null''"
| "String (JStr s) = Inr s"
| "String (JOther t m j s lit) = s"

text \<open>The conversion of \<^verbatim>\<open>${v}\<close> inside a template literal.\<close>

fun ToString :: "jsval \<Rightarrow> jsval + string" where
  "ToString JUndefined = Inr ''undefined''"
| "ToString JNull = Inr ''null''"
| "ToString (JStr s) = Inr s"
| "ToString (JOther t m j s lit) = lit"

text \<open>
  \<^verbatim>\<open>
  function errMsg(err) {
    if (!err) return 'Unknown error'
    if (typeof err === 'string') return err
    if (err.message) return err.message
    try { return JSON.stringify(err) } catch (_) { return String(err) }
  }
  \<close>
  The function returns whatever the taken branch returns, so its value is a
  \<^typ>\<open>jsval\<close>: a truthy \<^verbatim>\<open>message\<close> that is not a string is returned as it is, and
  so is the \<^verbatim>\<open>undefined\<close> that \<^verbatim>\<open>JSON.stringify\<close> returns for a function. The read of
  \<^verbatim>\<open>err.message\<close> and the call of \<^verbatim>\<open>String\<close> in the handler are not guarded: what
  they throw, \<^verbatim>\<open>errMsg\<close> throws.
\<close>

definition errMsg :: "jsval \<Rightarrow> jsval + jsval" where
  "errMsg err =
    (if \<not> truthy err then Inr (JStr ''Unknown error'')
     else case err of
         JStr s \<Rightarrow> Inr err
       | JOther t m j s lit \<Rightarrow>
           (case m of
              Inl thrown \<Rightarrow> Inl thrown
            | Inr msg \<Rightarrow>
                if truthy msg then Inr msg
                else (case j of
                        JsonText x \<Rightarrow> Inr (JStr x)
                      | JsonUndefined \<Rightarrow> Inr JUndefined
                      | JsonThrows \<Rightarrow>
                          (case String err of
                             Inl thrown \<Rightarrow> Inl thrown
                           | Inr x \<Rightarrow> Inr (JStr x))))
       | _ \<Rightarrow> Inr (JStr ''Unknown error''))"

text \<open>
  \<^verbatim>\<open>${errMsg(err)}\<close>, the interpolation of lines 108 and 197: the call, then the
  conversion of its result to text.
\<close>

definition errText :: "jsval \<Rightarrow> jsval + string" where
  "errText err =
    (case errMsg err of
       Inl thrown \<Rightarrow> Inl thrown
     | Inr m \<Rightarrow> ToString m)"

subsection \<open>Numbers to text\<close>

definition digit :: "nat \<Rightarrow> char" where
  "digit d = char_of (48 + d)"

fun show_nat :: "nat \<Rightarrow> string" where
  "show_nat n = (if n < 10 then [digit n] else show_nat (n div 10) @ [digit (n mod 10)])"

declare show_nat.simps [simp del]

text \<open>
  Page numbers are integers; \<open>show_int\<close> is the decimal text a template literal gives
  an integer below \<open>10\<^sup>2\<^sup>1\<close> in magnitude.
\<close>

definition show_int :: "int \<Rightarrow> string" where
  "show_int i = (if i < 0 then CHR ''-'' # show_nat (nat (- i)) else show_nat (nat i))"

text \<open>
  \<^verbatim>\<open>zoom.toFixed(2)\<close>. A finite double is a rational number, and \<^verbatim>\<open>toFixed\<close> picks
  the integer \<open>n\<close> with \<open>n / 100\<close> nearest to its exact value, the larger one on a tie,
  after moving the sign of a negative argument in front (for magnitudes below
  \<open>10\<^sup>2\<^sup>1\<close>, which a zoom factor is).
\<close>

definition toFixed2 :: "rat \<Rightarrow> string" where
  "toFixed2 x =
    (let n = nat \<lfloor>\<bar>x\<bar> * 100 + 1 / 2\<rfloor>
     in (if x < 0 then ''-'' else '''') @ show_nat (n div 100) @ ''.''
        @ [digit (n mod 100 div 10), digit (n mod 10)])"

text \<open>\<^verbatim>\<open>Math.round\<close>: the nearest integer, the larger one on a tie.\<close>

definition Math_round :: "rat \<Rightarrow> int" where
  "Math_round x = \<lfloor>x + 1 / 2\<rfloor>"

subsection \<open>Double-precision arithmetic\<close>

text \<open>
  A JavaScript number is an IEEE 754 double. A finite double is a rational number, and
  each arithmetic operation returns the double nearest to the exact result, the one with
  an even significand on a tie. \<open>fl\<close> is that rounding on the rationals, with a
  53-bit significand and an unbounded exponent: the numbers this file computes with
  (canvas dimensions, progress fractions, the constant 2400) stay far from the overflow
  and subnormal ranges. \<open>NaN\<close> and the infinities are written out where the source can
  produce them.
\<close>

definition pow2 :: "int \<Rightarrow> rat" where
  "pow2 e = (if 0 \<le> e then 2 ^ nat e else 1 / 2 ^ nat (- e))"

definition round_even :: "rat \<Rightarrow> int" where
  "round_even x =
    (let f = \<lfloor>x\<rfloor>; d = x - of_int f
     in if d < 1 / 2 then f else if 1 / 2 < d then f + 1 else if even f then f else f + 1)"

text \<open>The exponent of a positive rational \<open>a\<close>: \<open>2\<^sup>e \<le> a < 2\<^sup>e\<^sup>+\<^sup>1\<close>.\<close>

definition ilog2 :: "rat \<Rightarrow> int" where
  "ilog2 a =
    (let (p, q) = quotient_of a; d = bitlen p - bitlen q
     in if pow2 d \<le> a then d else d - 1)"

definition fl :: "rat \<Rightarrow> rat" where
  "fl x =
    (if x = 0 then 0
     else let a = \<bar>x\<bar>; s = pow2 (52 - ilog2 a)
          in sgn x * of_int (round_even (a * s)) / s)"

section \<open>The image preprocessor (\<^verbatim>\<open>runOcr\<close>, lines 164--179)\<close>

text \<open>
  A canvas is known to the hook by its \<^verbatim>\<open>width\<close> and \<^verbatim>\<open>height\<close>, two
  unsigned integers.
\<close>

record surface =
  width :: nat
  height :: nat

definition MAX_OCR_DIM :: nat where
  "MAX_OCR_DIM = 2400"

text \<open>
  \<^verbatim>\<open>Math.min(MAX_OCR_DIM / canvas.width, MAX_OCR_DIM / canvas.height)\<close>. A division by
  zero gives \<^verbatim>\<open>Infinity\<close>, which \<^verbatim>\<open>Math.min\<close> discards in favour of the other
  quotient; the branch that computes the ratio is entered only when one dimension exceeds
  2400, so the two are never both zero.
\<close>

definition ratio_of :: "surface \<Rightarrow> rat" where
  "ratio_of c =
    (if width c = 0 then fl (of_nat MAX_OCR_DIM / of_nat (height c))
     else if height c = 0 then fl (of_nat MAX_OCR_DIM / of_nat (width c))
     else min (fl (of_nat MAX_OCR_DIM / of_nat (width c)))
              (fl (of_nat MAX_OCR_DIM / of_nat (height c))))"

definition offscreen_of :: "surface \<Rightarrow> surface" where
  "offscreen_of c =
    (let ratio = ratio_of c
     in \<lparr>width = nat \<lfloor>fl (of_nat (width c) * ratio)\<rfloor>,
         height = nat \<lfloor>fl (of_nat (height c) * ratio)\<rfloor>\<rparr>)"

text \<open>
  \<^verbatim>\<open>
  let imageSource = canvas
  if (canvas.width > MAX_OCR_DIM || canvas.height > MAX_OCR_DIM) {
    const ratio = Math.min(MAX_OCR_DIM / canvas.width, MAX_OCR_DIM / canvas.height)
    const offscreen = document.createElement('canvas')
    offscreen.width = Math.floor(canvas.width * ratio)
    offscreen.height = Math.floor(canvas.height * ratio)
    const ctx = offscreen.getContext('2d')
    ctx.filter = 'grayscale(1) contrast(1.2)'
    ctx.drawImage(canvas, 0, 0, offscreen.width, offscreen.height)
    imageSource = offscreen
  }
  \<close>
  The DOM calls of the branch can throw (no 2D context, a source canvas that cannot be
  drawn). \<open>domError c\<close> is the value they throw for the canvas \<open>c\<close>, if any; the pixels
  themselves are not modelled.
\<close>

definition preprocess :: "(surface \<Rightarrow> jsval option) \<Rightarrow> surface \<Rightarrow> jsval + surface" where
  "preprocess domError c =
    (if MAX_OCR_DIM < width c \<or> MAX_OCR_DIM < height c then
       (case domError c of
          Some err \<Rightarrow> Inl err
        | None \<Rightarrow> Inr (offscreen_of c))
     else Inr c)"

text \<open>
  The preprocessor in the words of the specification (section 4.4): a surface whose two
  dimensions are within the bound is returned unchanged; otherwise the ratio is
  \<open>min(maxDim/width, maxDim/height)\<close> and the new surface measures
  \<open>floor(width*ratio)\<close> by \<open>floor(height*ratio)\<close>, in the arithmetic of the source's
  numbers.
\<close>

definition spec_prepare :: "nat \<Rightarrow> surface \<Rightarrow> surface" where
  "spec_prepare maxDim c =
    (if width c \<le> maxDim \<and> height c \<le> maxDim then c
     else
       (let ratio = min (fl (of_nat maxDim / of_nat (width c)))
                        (fl (of_nat maxDim / of_nat (height c)))
        in \<lparr>width = nat \<lfloor>fl (of_nat (width c) * ratio)\<rfloor>,
            height = nat \<lfloor>fl (of_nat (height c) * ratio)\<rfloor>\<rparr>))"

section \<open>The state of the hook and of the store\<close>

text \<open>
  A request is the argument list of \<^verbatim>\<open>runOcr(canvas, pageNumber, zoom, forceRun)\<close>; it
  is also what \<^verbatim>\<open>pendingRef.current\<close> holds. The zoom is a finite double.
\<close>

record request =
  canvas :: surface
  pageNumber :: int
  zoom :: rat
  forceRun :: bool

text \<open>
  \<^verbatim>\<open>runOcr\<close> is a \<^verbatim>\<open>useCallback\<close> closure. It reads \<^verbatim>\<open>ocrLanguage\<close> and
  \<^verbatim>\<open>ocrCache\<close> from the render that created it (lines 37--38, dependency list on line
  211), not from the live store: the cache test of line 133 looks at the object captured
  then.
\<close>

record closure =
  c_ocrLanguage :: string
  c_ocrCache :: "string \<Rightarrow> string option"

text \<open>
  A suspended \<^verbatim>\<open>runOcr\<close> activation, waiting on line 181 for
  \<^verbatim>\<open>workerRef.current.recognize(imageSource)\<close>: its closure, its arguments, the cache
  key it computed on line 130 and the image it handed to the engine.
\<close>

record job =
  j_closure :: closure
  j_request :: request
  j_cacheKey :: string
  j_image :: surface

text \<open>The value of \<^verbatim>\<open>ocrProgress\<close>: \<^verbatim>\<open>Math.round\<close> of a number, or \<^verbatim>\<open>NaN\<close>.\<close>

datatype percent = NaN | Pct int

text \<open>
  The five refs of the hook (lines 46--50), the OCR fields of the store (useStore.js,
  lines 59--83), the environment the hook reads (the wall clock that stamps log entries,
  the DOM) and the bookkeeping of the asynchronous control flow: the suspended
  activations, the \<^verbatim>\<open>setTimeout\<close> callbacks scheduled on line 101, the arguments of
  every \<^verbatim>\<open>runOcr\<close> activation so far, the images passed to the engine so far, and
  the languages passed to \<^verbatim>\<open>createWorker\<close> so far. The developer console, to which
  lines 104 and 196 write, is not part of the state.
\<close>

record state =
  workerRef :: "nat option"
  workerReadyRef :: bool
  currentLangRef :: "string option"
  pendingRef :: "request option"
  isRunningRef :: bool
  ocrCache :: "string \<Rightarrow> string option"
  ocrLoading :: bool
  ocrProgress :: percent
  workerReady :: bool
  workerInitProgress :: int
  workerInitStatus :: string
  ocrLog :: "string list"
  clock :: string
  domError :: "surface \<Rightarrow> jsval option"
  inflight :: "job list"
  timers :: "request list"
  calls :: "request list"
  recognizeCalls :: "surface list"
  createWorkerCalls :: "string list"

text \<open>The store as created (useStore.js, lines 59--76) and the refs as created.\<close>

definition initial :: "string \<Rightarrow> (surface \<Rightarrow> jsval option) \<Rightarrow> state" where
  "initial now dom_err =
    \<lparr>workerRef = None, workerReadyRef = False, currentLangRef = None, pendingRef = None,
     isRunningRef = False, ocrCache = (\<lambda>k. None), ocrLoading = False, ocrProgress = Pct 0,
     workerReady = False, workerInitProgress = 0, workerInitStatus = [], ocrLog = [],
     clock = now, domError = dom_err, inflight = [], timers = [], calls = [],
     recognizeCalls = [], createWorkerCalls = []\<rparr>"


subsection \<open>Store actions (useStore.js, lines 62--83)\<close>

definition setOcrResult :: "string \<Rightarrow> string \<Rightarrow> state \<Rightarrow> state" where
  "setOcrResult k text st = st\<lparr>ocrCache := (ocrCache st)(k \<mapsto> text)\<rparr>"

definition setOcrLoading :: "bool \<Rightarrow> state \<Rightarrow> state" where
  "setOcrLoading v st = st\<lparr>ocrLoading := v\<rparr>"

definition setOcrProgress :: "percent \<Rightarrow> state \<Rightarrow> state" where
  "setOcrProgress p st = st\<lparr>ocrProgress := p\<rparr>"

definition clearOcrCache :: "state \<Rightarrow> state" where
  "clearOcrCache st = st\<lparr>ocrCache := (\<lambda>k. None)\<rparr>"

definition setWorkerReady :: "bool \<Rightarrow> state \<Rightarrow> state" where
  "setWorkerReady v st = st\<lparr>workerReady := v\<rparr>"

definition setWorkerInitProgress :: "int \<Rightarrow> string \<Rightarrow> state \<Rightarrow> state" where
  "setWorkerInitProgress p label st = st\<lparr>workerInitProgress := p, workerInitStatus := label\<rparr>"

text \<open>
  \<^verbatim>\<open>
  addOcrLog: (message) => set((s) => {
    const timestamp = new Date().toLocaleTimeString('en-US', { hour12: false })
    const entry = `[${timestamp}] ${message}`
    const updated = [entry, ...s.ocrLog]
    return { ocrLog: updated.slice(0, 50) }
  })
  \<close>
\<close>

definition addOcrLog :: "string \<Rightarrow> state \<Rightarrow> state" where
  "addOcrLog message st =
    (let entry = ''['' @ clock st @ ''] '' @ message;
         updated = entry # ocrLog st
     in st\<lparr>ocrLog := take 50 updated\<rparr>)"

subsection \<open>String helpers\<close>

text \<open>\<^verbatim>\<open>String.prototype.trim\<close> on Latin-1 text: the white space and line terminators.\<close>

definition is_space :: "char \<Rightarrow> bool" where
  "is_space c = (of_char c \<in> {9, 10, 11, 12, 13, 32, 160 :: nat})"

definition trim :: "string \<Rightarrow> string" where
  "trim s = rev (dropWhile is_space (rev (dropWhile is_space s)))"

definition lower_char :: "char \<Rightarrow> char" where
  "lower_char c =
    (let n = of_char c :: nat
     in if (65 \<le> n \<and> n \<le> 90) \<or> (192 \<le> n \<and> n \<le> 222 \<and> n \<noteq> 215) then char_of (n + 32) else c)"

definition toLowerCase :: "string \<Rightarrow> string" where
  "toLowerCase s = map lower_char s"

text \<open>\<^verbatim>\<open>s.includes(k)\<close>: \<open>k\<close> occurs in \<open>s\<close> at some offset.\<close>

definition str_includes :: "string \<Rightarrow> string \<Rightarrow> bool" where
  "str_includes s k = list_ex (\<lambda>i. take (length k) (drop i s) = k) [0 ..< Suc (length s)]"

section \<open>The progress reporter (\<^verbatim>\<open>initWorker\<close>, lines 5--22 and 68--82)\<close>

definition LANGUAGE_LABELS :: "(string \<times> string) list" where
  "LANGUAGE_LABELS =
    [(''eng'', ''English''), (''fra'', ''French''), (''deu'', ''German''), (''spa'', ''Spanish''),
     (''ita'', ''Italian''), (''por'', ''Portuguese''), (''rus'', ''Russian''),
     (''chi_sim'', ''Chinese (Simplified)''), (''chi_tra'', ''Chinese (Traditional)''),
     (''jpn'', ''Japanese''), (''kor'', ''Korean''), (''ara'', ''Arabic''), (''hin'', ''Hindi''),
     (''nld'', ''Dutch''), (''pol'', ''Polish'')]"

text \<open>The table of phases: key, label, from, to.\<close>

definition INIT_STATUS_MAP :: "(string \<times> string \<times> int \<times> int) list" where
  "INIT_STATUS_MAP =
    [(''loading tesseract core'', ''Loading engine'' @ ellipsis, 0, 20),
     (''initializing tesseract'', ''Initializing engine'' @ ellipsis, 20, 40),
     (''initialized tesseract'', ''Engine ready'', 40, 50),
     (''loading language traineddata'', ''Loading language data'' @ ellipsis, 50, 85),
     (''loaded language traineddata'', ''Language data loaded'', 85, 90),
     (''initializing api'', ''Starting OCR engine'' @ ellipsis, 90, 99),
     (''initialized api'', ''OCR engine ready'', 99, 99)]"

text \<open>
  A status event of the engine: \<^verbatim>\<open>m.status\<close> is a string or absent, \<^verbatim>\<open>m.progress\<close>
  is a finite number or absent.
\<close>

record logmsg =
  status :: "string option"
  progress :: "rat option"

text \<open>
  \<^verbatim>\<open>
  logger: (m) => {
    if (m.status === 'recognizing text') {
      setOcrProgress(Math.round(m.progress * 100))
    } else {
      const statusKey = (m.status ?? '').toLowerCase()
      const phase = INIT_STATUS_MAP.find(({ key }) => statusKey.includes(key))
      if (phase) {
        const sub = typeof m.progress === 'number' ? Math.max(0, Math.min(1, m.progress)) : 1
        const pct = Math.round(phase.from + (phase.to - phase.from) * sub)
        setWorkerInitProgress(pct, phase.label)
      }
    }
  }
  \<close>
  An absent \<^verbatim>\<open>m.progress\<close> times 100 is \<^verbatim>\<open>NaN\<close>.
\<close>

definition logger :: "logmsg \<Rightarrow> state \<Rightarrow> state" where
  "logger m st =
    (if status m = Some ''recognizing text'' then
       setOcrProgress
         (case progress m of
            None \<Rightarrow> NaN
          | Some p \<Rightarrow> Pct (Math_round (fl (p * 100)))) st
     else
       (let statusKey = toLowerCase (case status m of None \<Rightarrow> [] | Some s \<Rightarrow> s)
        in case find (\<lambda>(key, label, pfrom, pto). str_includes statusKey key) INIT_STATUS_MAP of
             None \<Rightarrow> st
           | Some (key, label, pfrom, pto) \<Rightarrow>
               (let sub = (case progress m of Some p \<Rightarrow> max 0 (min 1 p) | None \<Rightarrow> 1);
                    pct = Math_round (fl (of_int pfrom + fl (of_int (pto - pfrom) * sub)))
                in setWorkerInitProgress pct label st)))"

section \<open>The engine lifecycle manager (\<^verbatim>\<open>initWorker\<close>, lines 53--111)\<close>

text \<open>
  \<^verbatim>\<open>LANGUAGE_LABELS[lang] || lang\<close>, for a language code that does not name a property
  that every object inherits (\<^verbatim>\<open>constructor\<close>, \<^verbatim>\<open>toString\<close>, ...).
\<close>

definition langLabel :: "string \<Rightarrow> string" where
  "langLabel lang =
    (case map_of LANGUAGE_LABELS lang of
       Some l \<Rightarrow> if l \<noteq> [] then l else lang
     | None \<Rightarrow> lang)"

text \<open>
  \<^verbatim>\<open>initWorker\<close> is an \<^verbatim>\<open>async\<close> function with two suspension points, the
  \<^verbatim>\<open>await\<close> of \<^verbatim>\<open>terminate()\<close> and the \<^verbatim>\<open>await\<close> of \<^verbatim>\<open>createWorker\<close>. Each
  stretch between them runs without interruption and is one function on the state.

  Lines 60--67, up to the \<^verbatim>\<open>await\<close>: the announcement and the call of
  \<^verbatim>\<open>createWorker\<close>.
\<close>

definition initWorker_announce :: "string \<Rightarrow> state \<Rightarrow> state" where
  "initWorker_announce lang st =
    (let st1 = addOcrLog (''Worker initializing for language: '' @ langLabel lang @ ellipsis)
                 (setWorkerInitProgress 0 (''Starting'' @ ellipsis) (setWorkerReady False st))
     in st1\<lparr>createWorkerCalls := createWorkerCalls st1 @ [lang]\<rparr>)"

text \<open>
  The call itself (lines 54--67): with a worker present it suspends at once on
  \<^verbatim>\<open>terminate()\<close>, before any assignment. A call of \<^verbatim>\<open>terminate\<close> that throws
  at once is a suspension followed by its continuation with nothing in between.
\<close>

definition initWorker :: "string \<Rightarrow> state \<Rightarrow> state" where
  "initWorker lang st = (if workerRef st \<noteq> None then st else initWorker_announce lang st)"

text \<open>
  After \<^verbatim>\<open>terminate()\<close> has settled, either way (lines 55--64:
  \<^verbatim>\<open>try { await workerRef.current.terminate() } catch (_) {}\<close>).
\<close>

definition initWorker_terminated :: "string \<Rightarrow> state \<Rightarrow> state" where
  "initWorker_terminated lang st =
    initWorker_announce lang (st\<lparr>workerRef := None, workerReadyRef := False\<rparr>)"

text \<open>
  After \<^verbatim>\<open>createWorker\<close> has resolved with a worker (lines 88--102). The replay of a
  pending request is handed to \<^verbatim>\<open>setTimeout\<close>.
\<close>

definition initWorker_created :: "string \<Rightarrow> nat \<Rightarrow> state \<Rightarrow> state" where
  "initWorker_created lang worker st =
    (let st1 = st\<lparr>workerRef := Some worker, workerReadyRef := True, currentLangRef := Some lang\<rparr>;
         st2 = addOcrLog ''Worker ready''
                 (setWorkerReady True
                   (setWorkerInitProgress 100 ''Ready'' (setOcrProgress (Pct 0) st1)))
     in case pendingRef st2 of
          None \<Rightarrow> st2
        | Some p \<Rightarrow> st2\<lparr>pendingRef := None, timers := timers st2 @ [p]\<rparr>)"

text \<open>
  After \<^verbatim>\<open>createWorker\<close> has rejected with \<open>err\<close> (lines 103--109): the state the
  handler leaves and the value it throws, if any. The interpolation of line 108 is
  evaluated before \<^verbatim>\<open>addOcrLog\<close> is called; when it throws, the three assignments
  before it have been made, the line is not logged, and the promise of \<^verbatim>\<open>initWorker\<close>
  is rejected.
\<close>

definition initWorker_failed :: "jsval \<Rightarrow> state \<Rightarrow> state \<times> jsval option" where
  "initWorker_failed err st =
    (let st1 = setWorkerInitProgress 0 ''Failed''
                 (setWorkerReady False (st\<lparr>workerReadyRef := False\<rparr>))
     in case errText err of
          Inl thrown \<Rightarrow> (st1, Some thrown)
        | Inr s \<Rightarrow> (addOcrLog (''Worker init failed: '' @ s) st1, None))"

section \<open>The request coordinator (\<^verbatim>\<open>runOcr\<close>, lines 129--211)\<close>

text \<open>
  \<^verbatim>\<open>runOcr\<close> is an \<^verbatim>\<open>async\<close> function with one suspension point, the
  \<^verbatim>\<open>await\<close> of \<^verbatim>\<open>recognize\<close> on line 181. A call runs without interruption until it
  returns, throws or reaches that point: its promise is then resolved with a value
  (\<open>Returned\<close>; \<open>None\<close> is \<^verbatim>\<open>null\<close>), rejected with the value thrown
  (\<open>Threw\<close>), or still pending (\<open>Awaiting\<close>).
\<close>

datatype outcome = Returned "string option" | Threw jsval | Awaiting

text \<open>Line 130: \<^verbatim>\<open>`${pageNumber}:${zoom.toFixed(2)}:${ocrLanguage}`\<close>\<close>

definition cacheKey :: "closure \<Rightarrow> request \<Rightarrow> string" where
  "cacheKey cl r =
    show_int (pageNumber r) @ '':'' @ toFixed2 (zoom r) @ '':'' @ c_ocrLanguage cl"

text \<open>Bookkeeping: an activation of \<^verbatim>\<open>runOcr\<close> with the arguments \<open>r\<close> begins.\<close>

definition enter :: "request \<Rightarrow> state \<Rightarrow> state" where
  "enter r st = st\<lparr>calls := calls st @ [r]\<rparr>"

text \<open>Lines 140 and 149: \<^verbatim>\<open>pendingRef.current = { canvas, pageNumber, zoom, forceRun }\<close>\<close>

definition queue :: "request \<Rightarrow> state \<Rightarrow> state" where
  "queue r st = st\<lparr>pendingRef := Some r\<rparr>"

text \<open>Lines 153--161.\<close>

definition start_run :: "request \<Rightarrow> state \<Rightarrow> state" where
  "start_run r st =
    addOcrLog
      (if forceRun r then ''Force re-running OCR on page '' @ show_int (pageNumber r)
       else ''Starting OCR on page '' @ show_int (pageNumber r) @ ellipsis)
      (setOcrProgress (Pct 0) (setOcrLoading True (st\<lparr>isRunningRef := True\<rparr>)))"

text \<open>
  Line 181, up to the \<^verbatim>\<open>await\<close>: the engine is invoked on the image and the activation
  is suspended. A call of \<^verbatim>\<open>recognize\<close> that throws at once is a suspension followed
  by a rejection with nothing in between.
\<close>

definition suspend :: "closure \<Rightarrow> request \<Rightarrow> surface \<Rightarrow> state \<Rightarrow> state" where
  "suspend cl r imageSource st =
    st\<lparr>inflight := inflight st @
          [\<lparr>j_closure = cl, j_request = r, j_cacheKey = cacheKey cl r, j_image = imageSource\<rparr>],
       recognizeCalls := recognizeCalls st @ [imageSource]\<rparr>"

text \<open>
  The \<^verbatim>\<open>catch\<close> block, lines 195--198: the state it leaves and the value it throws,
  if any. The interpolation of line 197 is evaluated before \<^verbatim>\<open>addOcrLog\<close> is called;
  when it throws, nothing is logged and the block does not reach its
  \<^verbatim>\<open>return null\<close>.
\<close>

definition catch_block :: "request \<Rightarrow> jsval \<Rightarrow> state \<Rightarrow> state \<times> jsval option" where
  "catch_block r err st =
    (case errText err of
       Inl thrown \<Rightarrow> (st, Some thrown)
     | Inr s \<Rightarrow>
         (addOcrLog (''Error during OCR on page '' @ show_int (pageNumber r) @ '': '' @ s) st,
          None))"

text \<open>
  What a call that went through the \<^verbatim>\<open>catch\<close> block settles to: \<^verbatim>\<open>null\<close>, or the
  value that the block threw.
\<close>

definition caught :: "jsval option \<Rightarrow> outcome" where
  "caught thrown = (case thrown of None \<Rightarrow> Returned None | Some e \<Rightarrow> Threw e)"

text \<open>Lines 200--202.\<close>

definition finally_reset :: "state \<Rightarrow> state" where
  "finally_reset st = setOcrProgress (Pct 0) (setOcrLoading False (st\<lparr>isRunningRef := False\<rparr>))"

text \<open>
  The call, up to its first suspension. When the preprocessing throws, the
  \<^verbatim>\<open>catch\<close> and \<^verbatim>\<open>finally\<close> blocks run before the call settles, and the
  \<^verbatim>\<open>finally\<close> block calls \<^verbatim>\<open>runOcr\<close> again on the pending request (lines 205--209):
  the same closure, whose promise is dropped. The \<^verbatim>\<open>finally\<close> block runs also when
  the \<^verbatim>\<open>catch\<close> block throws.
\<close>

function runOcr :: "closure \<Rightarrow> request \<Rightarrow> state \<Rightarrow> state \<times> outcome" where
  "runOcr cl r st0 =
    (let st = enter r st0; k = cacheKey cl r
     in if \<not> forceRun r \<and> c_ocrCache cl k \<noteq> None then
          (addOcrLog (''OCR skipped '' @ emdash @ '' result cached for page ''
                      @ show_int (pageNumber r)) st,
           Returned (c_ocrCache cl k))
        else if \<not> workerReadyRef st \<or> workerRef st = None then
          (if forceRun r then
             addOcrLog (''Force re-running OCR on page '' @ show_int (pageNumber r)
                        @ '' (queued '' @ emdash @ '' worker not ready)'') (queue r st)
           else queue r st,
           Returned None)
        else if isRunningRef st then (queue r st, Returned None)
        else
          (case preprocess (domError st) (canvas r) of
             Inr imageSource \<Rightarrow> (suspend cl r imageSource (start_run r st), Awaiting)
           | Inl err \<Rightarrow>
               (let cb = catch_block r err (start_run r st);
                    st' = finally_reset (fst cb)
                in case pendingRef st' of
                     None \<Rightarrow> (st', caught (snd cb))
                   | Some p \<Rightarrow> (fst (runOcr cl p (st'\<lparr>pendingRef := None\<rparr>)), caught (snd cb)))))"
  by pat_completeness auto
termination
  by (relation "measure (\<lambda>(cl, r, st). if pendingRef st = None then 0 else 1)")
    (simp_all add: finally_reset_def catch_block_def start_run_def enter_def addOcrLog_def
      setOcrProgress_def setOcrLoading_def Let_def split: sum.splits)

declare runOcr.simps [simp del]

text \<open>The \<^verbatim>\<open>finally\<close> block (lines 199--210), run by the closure \<open>cl\<close>.\<close>

definition finally_block :: "closure \<Rightarrow> state \<Rightarrow> state" where
  "finally_block cl st =
    (let st' = finally_reset st
     in case pendingRef st' of
          None \<Rightarrow> st'
        | Some p \<Rightarrow> fst (runOcr cl p (st'\<lparr>pendingRef := None\<rparr>)))"

text \<open>
  Lines 181--194, after \<^verbatim>\<open>recognize\<close> has resolved with \<open>text\<close>; the value is what
  the \<^verbatim>\<open>try\<close> block returns.
\<close>

definition try_tail :: "job \<Rightarrow> string \<Rightarrow> state \<Rightarrow> state \<times> string" where
  "try_tail j text st =
    (let trimmed = trim text;
         st1 = setOcrResult (j_cacheKey j) trimmed st;
         n = pageNumber (j_request j)
     in (if 0 < length trimmed then
           addOcrLog (''OCR complete on page '' @ show_int n @ '' '' @ emdash @ '' ''
                      @ show_nat (length trimmed) @ '' chars found'') st1
         else addOcrLog (''No text found on page '' @ show_int n) st1,
         trimmed))"

text \<open>
  The rest of a suspended activation \<open>j\<close>, once \<^verbatim>\<open>recognize\<close> has settled: resolved
  with a text (\<open>Inr\<close>), or rejected with a value (\<open>Inl\<close>), which the \<^verbatim>\<open>catch\<close>
  block receives. A result without a text, on which the destructuring of line 181 or the
  \<^verbatim>\<open>trim\<close> of line 182 throws, reaches the \<^verbatim>\<open>catch\<close> block with that
  \<^verbatim>\<open>TypeError\<close> and is an \<open>Inl\<close> as well. The value is what the promise of the call
  settles to: resolved with a text or \<^verbatim>\<open>null\<close> (\<open>Inr\<close>), or rejected with what
  the \<^verbatim>\<open>catch\<close> block threw (\<open>Inl\<close>).
\<close>

definition resume :: "job \<Rightarrow> jsval + string \<Rightarrow> state \<Rightarrow> state \<times> (jsval + string option)" where
  "resume j res st =
    (case res of
       Inr text \<Rightarrow>
         (let (st1, trimmed) = try_tail j text st
          in (finally_block (j_closure j) st1, Inr (Some trimmed)))
     | Inl err \<Rightarrow>
         (let (st1, thrown) = catch_block (j_request j) err st
          in (finally_block (j_closure j) st1,
              case thrown of None \<Rightarrow> Inr None | Some e \<Rightarrow> Inl e)))"

section \<open>The hook as a transition system\<close>

text \<open>
  What can happen to the hook, one uninterrupted stretch of JavaScript each: a caller
  invokes \<^verbatim>\<open>runOcr\<close> through some closure; the \<^verbatim>\<open>recognize\<close> promise of the
  \<open>n\<close>-th suspended activation settles; the oldest \<^verbatim>\<open>setTimeout\<close> callback of line
  101 runs, through the \<^verbatim>\<open>runOcr\<close> closure that \<^verbatim>\<open>initWorker\<close> captured;
  \<^verbatim>\<open>initWorker\<close> is called (\<open>Init\<close>) or continues after one of its two
  \<^verbatim>\<open>await\<close>s: the \<^verbatim>\<open>terminate\<close> of an earlier call has settled
  (\<open>Terminated\<close>), the \<^verbatim>\<open>createWorker\<close> of an earlier call has resolved with a
  worker (\<open>Created\<close>) or has rejected (\<open>Failed\<close>); the engine reports a status; the
  clock advances; a collaborator clears the cache (\<^verbatim>\<open>clearOcrCache\<close>). The events
  are not tied to one another: every sequence of them is a history, the histories of the
  running hook among them.
\<close>

datatype event =
    Call closure request
  | Settle nat "jsval + string"
  | Timeout closure
  | Init string
  | Terminated string
  | Created string nat
  | Failed jsval
  | Status logmsg
  | Tick string
  | ClearCache

fun step :: "event \<Rightarrow> state \<Rightarrow> state" where
  "step (Call cl r) st = fst (runOcr cl r st)"
| "step (Settle n res) st =
    (if n < length (inflight st) then
       fst (resume (inflight st ! n) res
             (st\<lparr>inflight := take n (inflight st) @ drop (Suc n) (inflight st)\<rparr>))
     else st)"
| "step (Timeout cl) st =
    (case timers st of
       [] \<Rightarrow> st
     | p # ps \<Rightarrow> fst (runOcr cl p (st\<lparr>timers := ps\<rparr>)))"
| "step (Init lang) st = initWorker lang st"
| "step (Terminated lang) st = initWorker_terminated lang st"
| "step (Created lang worker) st = initWorker_created lang worker st"
| "step (Failed err) st = fst (initWorker_failed err st)"
| "step (Status m) st = logger m st"
| "step (Tick now) st = st\<lparr>clock := now\<rparr>"
| "step ClearCache st = clearOcrCache st"

fun run :: "event list \<Rightarrow> state \<Rightarrow> state" where
  "run [] st = st"
| "run (e # es) st = run es (step e st)"




section \<open>The run-state invariant\<close>

text \<open>
  The run state and the suspended activations agree: at most one activation is suspended on
  the engine, and \<^verbatim>\<open>isRunningRef\<close> is set exactly while one is.
\<close>

definition run_state_ok :: "state \<Rightarrow> bool" where
  "run_state_ok st = (length (inflight st) \<le> 1 \<and> (isRunningRef st \<longleftrightarrow> inflight st \<noteq> []))"

section \<open>Concrete requests, closures and states\<close>

text \<open>
  Two requests for pages of 800 by 600 pixels at zoom 1; the closure of the first render
  (an empty cache) and the closure of a later render that has captured a result for page
  3; the hook once \<^verbatim>\<open>initWorker('eng')\<close> has been called and its worker created, and
  the hook while the engine works on page 7.
\<close>

definition page3 :: request where
  "page3 = \<lparr>canvas = \<lparr>width = 800, height = 600\<rparr>, pageNumber = 3, zoom = 1, forceRun = False\<rparr>"

definition page7 :: request where
  "page7 = \<lparr>canvas = \<lparr>width = 800, height = 600\<rparr>, pageNumber = 7, zoom = 1, forceRun = False\<rparr>"

definition first_render :: closure where
  "first_render = \<lparr>c_ocrLanguage = ''eng'', c_ocrCache = (\<lambda>k. None)\<rparr>"

definition later_render :: closure where
  "later_render = \<lparr>c_ocrLanguage = ''eng'', c_ocrCache = [''3:1.00:eng'' \<mapsto> ''Hello'']\<rparr>"

definition ready_state :: state where
  "ready_state = run [Init ''eng'', Created ''eng'' 0] (initial ''12:00:00'' (\<lambda>c. None))"

definition busy_state :: state where
  "busy_state = run [Call first_render page7] ready_state"


definition big_page :: request where
  "big_page = \<lparr>canvas = \<lparr>width = 5000, height = 3000\<rparr>, pageNumber = 9, zoom = 3 / 2,
                forceRun = True\<rparr>"

definition type_error :: jsval where
  "type_error = JOther True (Inr (JStr ''ctx is null'')) (JsonText ''{}'')
                  (Inr ''TypeError: ctx is null'') (Inr ''TypeError: ctx is null'')"

definition broken_dom :: "surface \<Rightarrow> jsval option" where
  "broken_dom c = Some type_error"

definition job7 :: job where
  "job7 = \<lparr>j_closure = first_render, j_request = page7, j_cacheKey = ''7:1.00:eng'',
            j_image = canvas page7\<rparr>"

definition queued_state :: state where
  "queued_state = run [Call first_render page3] (initial ''12:00:00'' (\<lambda>c. None))"

text \<open>
  Thrown values: \<^verbatim>\<open>new Error('Network error')\<close>; \<^verbatim>\<open>Symbol('x')\<close> and the
  \<^verbatim>\<open>TypeError\<close> with which a template literal refuses it;
  \<^verbatim>\<open>{ message: Symbol('x') }\<close>; an object whose \<^verbatim>\<open>message\<close> accessor throws the
  string \<open>boom\<close>; \<^verbatim>\<open>{ message: 42 }\<close>, whose message is the number 42; and a
  function.
\<close>

definition network_error :: jsval where
  "network_error = JOther True (Inr (JStr ''Network error'')) (JsonText ''{}'')
                     (Inr ''Error: Network error'') (Inr ''Error: Network error'')"

definition cannot_convert :: jsval where
  "cannot_convert =
     JOther True (Inr (JStr ''Cannot convert a Symbol value to a string'')) (JsonText ''{}'')
       (Inr ''TypeError: Cannot convert a Symbol value to a string'')
       (Inr ''TypeError: Cannot convert a Symbol value to a string'')"

definition symbol_x :: jsval where
  "symbol_x = JOther True (Inr JUndefined) JsonUndefined (Inr ''Symbol(x)'') (Inl cannot_convert)"

definition symbol_message :: jsval where
  "symbol_message = JOther True (Inr symbol_x) (JsonText ''{}'')
                      (Inr ''[object Object]'') (Inr ''[object Object]'')"

definition throwing_getter :: jsval where
  "throwing_getter = JOther True (Inl (JStr ''boom'')) JsonThrows
                       (Inr ''[object Object]'') (Inr ''[object Object]'')"

definition number_42 :: jsval where
  "number_42 = JOther True (Inr JUndefined) (JsonText ''42'') (Inr ''42'') (Inr ''42'')"

definition numeric_message :: jsval where
  "numeric_message = JOther True (Inr number_42)
                       (JsonText (''{'' @ [CHR 0x22] @ ''message'' @ [CHR 0x22] @ '':42}''))
                       (Inr ''[object Object]'') (Inr ''[object Object]'')"

definition a_function :: jsval where
  "a_function = JOther True (Inr JUndefined) JsonUndefined
                  (Inr ''() => {}'') (Inr ''() => {}'')"






section \<open>The error formatter\<close>

text \<open>
  C10, as the code has it. \<^verbatim>\<open>errMsg\<close> returns the string \<^verbatim>\<open>'Unknown error'\<close>
  for \<^verbatim>\<open>undefined\<close>, for \<^verbatim>\<open>null\<close> and for every other falsy value, the empty
  string among them; it returns a string that is not empty unchanged; for a truthy value
  that is not a string and whose \<^verbatim>\<open>message\<close> reads as a string that is not empty it
  returns that message; for a truthy value that is not a string and whose \<^verbatim>\<open>message\<close>
  reads as a falsy value it returns the text of \<^verbatim>\<open>JSON.stringify\<close> when there is one,
  and the text of \<^verbatim>\<open>String\<close> when \<^verbatim>\<open>JSON.stringify\<close> throws and \<^verbatim>\<open>String\<close>
  does not. In each of these cases it returns, it does not throw, and what it returns is a
  string. And it does not throw on any value whose \<^verbatim>\<open>message\<close> can be read and
  which \<^verbatim>\<open>String\<close> can convert.
\<close>

theorem errMsg_cases:
  "errMsg JUndefined = Inr (JStr ''Unknown error'')
   \<and> errMsg JNull = Inr (JStr ''Unknown error'')
   \<and> (\<not> truthy err \<longrightarrow> errMsg err = Inr (JStr ''Unknown error''))
   \<and> (s \<noteq> [] \<longrightarrow> errMsg (JStr s) = Inr (JStr s))
   \<and> (msg \<noteq> [] \<longrightarrow> errMsg (JOther True (Inr (JStr msg)) j str lit) = Inr (JStr msg))
   \<and> (\<not> truthy m \<longrightarrow> errMsg (JOther True (Inr m) (JsonText x) str lit) = Inr (JStr x))
   \<and> (\<not> truthy m \<longrightarrow> errMsg (JOther True (Inr m) JsonThrows (Inr x) lit) = Inr (JStr x))
   \<and> (\<exists>v. errMsg (JOther t (Inr m) j (Inr x) lit) = Inr v)"
  by (simp add: errMsg_def split: json_result.splits)

text \<open>
  The cases at concrete values: the empty string, a message string, an \<^verbatim>\<open>Error\<close> with
  a message, an \<^verbatim>\<open>Error\<close> with an empty message, and a cyclic object.
\<close>

theorem errMsg_cases_witness:
  "errMsg (JStr []) = Inr (JStr ''Unknown error'')
   \<and> errMsg (JStr ''boom'') = Inr (JStr ''boom'')
   \<and> errMsg network_error = Inr (JStr ''Network error'')
   \<and> errMsg (JOther True (Inr (JStr [])) (JsonText ''{}'') (Inr ''Error'') (Inr ''Error''))
       = Inr (JStr ''{}'')
   \<and> errMsg (JOther True (Inr JUndefined) JsonThrows (Inr ''[object Object]'')
         (Inr ''[object Object]'')) = Inr (JStr ''[object Object]'')"
  using errMsg_cases [where err = "JStr []" and s = "''boom''" and msg = "''Network error''"
      and j = "JsonText ''{}''" and str = "Inr ''Error: Network error''"
      and lit = "Inr ''Error: Network error''"]
    errMsg_cases [where m = "JStr []" and x = "''{}''" and str = "Inr ''Error''"
      and lit = "Inr ''Error''"]
    errMsg_cases [where m = "JUndefined" and x = "''[object Object]''"
      and lit = "Inr ''[object Object]''"]
  by (simp add: network_error_def)

text \<open>
  C10 as stated says that a string is returned unchanged. The empty string is falsy, so
  the first line of \<^verbatim>\<open>errMsg\<close> answers for it.
\<close>

theorem errMsg_empty_string_counterexample:
  "errMsg (JStr []) = Inr (JStr ''Unknown error'') \<and> errMsg (JStr []) \<noteq> Inr (JStr [])"
  by (simp add: errMsg_def)

text \<open>
  Values outside these cases: an object whose \<^verbatim>\<open>message\<close> accessor throws, an object
  whose message is a symbol or a number, and a function.
\<close>

lemma errMsg_outside:
  "errMsg throwing_getter = Inl (JStr ''boom'')"
  "errMsg symbol_message = Inr symbol_x"
  "errMsg numeric_message = Inr number_42"
  "errMsg a_function = Inr JUndefined"
  by (simp_all add: errMsg_def throwing_getter_def symbol_message_def symbol_x_def
      numeric_message_def number_42_def a_function_def)

lemma errText_values:
  "errText (JStr ''worker crashed'') = Inr ''worker crashed''"
  "errText type_error = Inr ''ctx is null''"
  "errText network_error = Inr ''Network error''"
  "errText JNull = Inr ''Unknown error''"
  "errText symbol_message = Inl cannot_convert"
  "errText throwing_getter = Inl (JStr ''boom'')"
  by (simp_all add: errText_def errMsg_def type_error_def network_error_def symbol_message_def
      symbol_x_def throwing_getter_def)




section \<open>Rounding to a double\<close>

text \<open>
  The rounding stays within half a unit in the last place: for a positive \<open>x\<close> the
  result differs from \<open>x\<close> by at most \<open>x / 2\<^sup>5\<^sup>3\<close>.
\<close>

lemma pow2_power_int: "pow2 e = power_int 2 e"
  by (simp add: pow2_def power_int_def field_simps)

lemma pow2_pos: "0 < pow2 e"
  by (simp add: pow2_power_int zero_less_power_int)

lemma pow2_add: "pow2 (a + b) = pow2 a * pow2 b"
  by (simp add: pow2_power_int power_int_add)

lemma pow2_nat: "0 \<le> e \<Longrightarrow> pow2 e = 2 ^ nat e"
  by (simp add: pow2_def)

lemma round_even_err: "\<bar>of_int (round_even y) - y\<bar> \<le> 1 / 2"
proof -
  have "of_int \<lfloor>y\<rfloor> \<le> y" "y < of_int \<lfloor>y\<rfloor> + 1"
    by linarith+
  then show ?thesis
    by (auto simp add: round_even_def Let_def abs_le_iff)
qed

lemma round_even_nonneg: "0 \<le> y \<Longrightarrow> 0 \<le> round_even y"
  by (auto simp add: round_even_def Let_def)

lemma ilog2_lower:
  assumes "0 < a"
  shows "pow2 (ilog2 a) \<le> a"
proof -
  obtain p q where pq: "quotient_of a = (p, q)" by (cases "quotient_of a")
  have q: "0 < q" using pq by (rule quotient_of_denom_pos)
  have a: "a = of_int p / of_int q" using pq by (rule quotient_of_div)
  have p: "0 < p" using assms a q by (simp add: zero_less_divide_iff)
  let ?d = "bitlen p - bitlen q"
  have bp: "1 \<le> bitlen p" using p by (simp add: bitlen_alt_def)
  have bq: "1 \<le> bitlen q" using q by (simp add: bitlen_alt_def)
  have lo: "(2::int) ^ nat (bitlen p - 1) \<le> p" using bitlen_bounds [OF p] by simp
  have hi: "q < (2::int) ^ nat (bitlen q)" using bitlen_bounds [OF q] by simp
  have lo': "pow2 (bitlen p - 1) \<le> of_int p"
  proof -
    have "(of_int ((2::int) ^ nat (bitlen p - 1)) :: rat) \<le> of_int p"
      using lo by (simp only: of_int_le_iff)
    then show ?thesis using bp by (simp add: pow2_nat)
  qed
  have hi': "of_int q \<le> pow2 (bitlen q)"
  proof -
    have "q \<le> (2::int) ^ nat (bitlen q)" using hi by simp
    then have "(of_int q :: rat) \<le> of_int ((2::int) ^ nat (bitlen q))"
      by (simp only: of_int_le_iff)
    then show ?thesis using bq by (simp add: pow2_nat)
  qed
  have "pow2 (?d - 1) * of_int q \<le> pow2 (?d - 1) * pow2 (bitlen q)"
    using hi' pow2_pos [of "?d - 1"] by (simp add: mult_left_mono)
  also have "\<dots> = pow2 (bitlen p - 1)"
    by (simp add: pow2_add [symmetric])
  also have "\<dots> \<le> of_int p" by (rule lo')
  finally have "pow2 (?d - 1) \<le> of_int p / of_int q"
    using q by (simp add: pos_le_divide_eq)
  then have low: "pow2 (?d - 1) \<le> a" using a by simp
  show ?thesis
    using low by (simp add: ilog2_def pq Let_def)
qed

lemma fl_error:
  assumes "0 < x"
  shows "\<bar>fl x - x\<bar> \<le> x / 2 ^ 53"
proof -
  let ?e = "ilog2 x"
  let ?s = "pow2 (52 - ?e)"
  have s: "0 < ?s" by (rule pow2_pos)
  have f: "fl x = of_int (round_even (x * ?s)) / ?s"
    using assms by (simp add: fl_def Let_def)
  have "\<bar>fl x - x\<bar> = \<bar>of_int (round_even (x * ?s)) - x * ?s\<bar> / ?s"
    using s by (simp add: f field_simps abs_mult abs_divide flip: abs_of_pos)
  also have "\<dots> \<le> (1 / 2) / ?s"
    by (rule divide_right_mono) (use round_even_err [of "x * ?s"] s in simp_all)
  also have "\<dots> = pow2 ?e / 2 ^ 53"
  proof -
    have "?s * pow2 ?e = pow2 52" by (simp add: pow2_add [symmetric])
    then have "pow2 ?e = 2 ^ 52 / ?s" using s by (simp add: pow2_def field_simps)
    then show ?thesis by simp
  qed
  also have "\<dots> \<le> x / 2 ^ 53"
    using ilog2_lower [OF assms] by (simp add: divide_right_mono)
  finally show ?thesis .
qed

lemma fl_zero: "fl 0 = 0"
  by (simp add: fl_def)

lemma fl_near:
  assumes "0 \<le> x"
  shows "x - x / 2 ^ 53 \<le> fl x" and "fl x \<le> x + x / 2 ^ 53"
proof -
  have "\<bar>fl x - x\<bar> \<le> x / 2 ^ 53"
  proof (cases "x = 0")
    case True
    then show ?thesis by (simp add: fl_zero)
  next
    case False
    then have "0 < x" using assms by simp
    then show ?thesis by (rule fl_error)
  qed
  then show "x - x / 2 ^ 53 \<le> fl x" and "fl x \<le> x + x / 2 ^ 53"
    by linarith+
qed

lemma fl_nonneg: "0 \<le> x \<Longrightarrow> 0 \<le> fl x"
proof -
  assume x: "0 \<le> x"
  have "x / 2 ^ 53 \<le> x" using x by (simp add: field_simps)
  then show ?thesis using fl_near(1) [OF x] by linarith
qed

section \<open>The progress reporter\<close>

lemma Math_round_bounds:
  assumes "0 \<le> p" "p \<le> 1"
  shows "0 \<le> Math_round (fl (p * 100))" and "Math_round (fl (p * 100)) \<le> 100"
proof -
  have x0: "(0::rat) \<le> p * 100" using assms by simp
  have x1: "p * 100 \<le> 100" using assms by simp
  have f0: "0 \<le> fl (p * 100)" using x0 by (rule fl_nonneg)
  have "fl (p * 100) \<le> p * 100 + p * 100 / 2 ^ 53" using x0 by (rule fl_near(2))
  also have "\<dots> \<le> 100 + 100 / 2 ^ 53"
    by (rule add_mono) (use x1 in \<open>simp_all add: divide_right_mono\<close>)
  finally have f1: "fl (p * 100) + 1 / 2 < 101" by simp
  show "0 \<le> Math_round (fl (p * 100))"
    using f0 by (simp add: Math_round_def)
  show "Math_round (fl (p * 100)) \<le> 100"
    using f1 by (simp add: Math_round_def floor_le_iff)
qed

text \<open>
  C7. For a status event \<open>recognizing text\<close> whose fraction lies between 0 and 1, the
  recognition progress becomes \<^verbatim>\<open>Math.round(fraction * 100)\<close>, the product being that
  of two doubles, clamped to the interval from 0 to 100: the rounded product lies in that
  interval already, so the value that the logger stores as it is, is the clamped one.
  Nothing else in the state changes.
\<close>

theorem recognizing_progress_is_clamped_percentage:
  "status m = Some ''recognizing text'' \<and> progress m = Some p \<and> 0 \<le> p \<and> p \<le> 1 \<longrightarrow>
     ocrProgress (logger m st) = Pct (max 0 (min 100 (Math_round (fl (p * 100)))))
     \<and> (\<exists>n. ocrProgress (logger m st) = Pct n \<and> 0 \<le> n \<and> n \<le> 100)
     \<and> logger m st = st\<lparr>ocrProgress := ocrProgress (logger m st)\<rparr>"
  using Math_round_bounds [of p]
  by (simp add: logger_def setOcrProgress_def)

lemma Math_round_fl_values:
  "Math_round (fl 0) = 0" "Math_round (fl (75 / 2)) = 38" "Math_round (fl 100) = 100"
  by code_simp+

text \<open>
  The fractions 0, 0.375 and 1.
\<close>

theorem recognizing_progress_is_clamped_percentage_witness:
  "ocrProgress (logger \<lparr>status = Some ''recognizing text'', progress = Some 0\<rparr>
      (initial ''12:00:00'' (\<lambda>c. None))) = Pct 0
   \<and> ocrProgress (logger \<lparr>status = Some ''recognizing text'', progress = Some (3 / 8)\<rparr>
      (initial ''12:00:00'' (\<lambda>c. None))) = Pct 38
   \<and> ocrProgress (logger \<lparr>status = Some ''recognizing text'', progress = Some 1\<rparr>
      (initial ''12:00:00'' (\<lambda>c. None))) = Pct 100"
  using recognizing_progress_is_clamped_percentage
      [where m = "\<lparr>status = Some ''recognizing text'', progress = Some 0\<rparr>" and p = 0
        and st = "initial ''12:00:00'' (\<lambda>c. None)"]
    recognizing_progress_is_clamped_percentage
      [where m = "\<lparr>status = Some ''recognizing text'', progress = Some (3 / 8)\<rparr>"
        and p = "3 / 8" and st = "initial ''12:00:00'' (\<lambda>c. None)"]
    recognizing_progress_is_clamped_percentage
      [where m = "\<lparr>status = Some ''recognizing text'', progress = Some 1\<rparr>" and p = 1
        and st = "initial ''12:00:00'' (\<lambda>c. None)"]
  by (simp add: Math_round_fl_values)

text \<open>
  The initialization branch of the same callback clamps the fraction itself to the
  interval from 0 to 1: the fraction 1.5 in the first phase gives 20, the end of its band.
\<close>

lemma find_loading_core:
  "find (\<lambda>(key, label, pfrom, pto). str_includes (toLowerCase ''Loading Tesseract Core'') key)
     INIT_STATUS_MAP = Some (''loading tesseract core'', ''Loading engine'' @ ellipsis, 0, 20)"
  by code_simp

lemma pct_loading_core:
  "Math_round (fl (rat_of_int 0 + fl (rat_of_int (20 - 0) * max 0 (min 1 (3 / 2))))) = 20"
  by code_simp

lemma logger_init_clamped:
  "workerInitProgress
     (logger \<lparr>status = Some ''Loading Tesseract Core'', progress = Some (3 / 2)\<rparr> st) = 20"
  using pct_loading_core
  by (simp add: logger_def find_loading_core setWorkerInitProgress_def)

section \<open>The image preprocessor\<close>

lemma scaled_le:
  assumes n: "0 < n" and r0: "0 \<le> ratio" and r1: "ratio \<le> fl (2400 / of_nat n)"
  shows "nat \<lfloor>fl (of_nat n * ratio)\<rfloor> \<le> 2400"
proof -
  define B :: rat where "B = 2400 + 2400 / 2 ^ 53"
  let ?q = "2400 / (of_nat n :: rat)"
  let ?y = "of_nat n * ratio"
  have n': "(0::rat) < of_nat n" using n by simp
  have q0: "0 \<le> ?q" by simp
  have "fl ?q \<le> ?q + ?q / 2 ^ 53" using fl_near(2) [OF q0] .
  then have rq: "ratio \<le> ?q + ?q / 2 ^ 53" using r1 by (rule order_trans [rotated])
  have "?y \<le> of_nat n * (?q + ?q / 2 ^ 53)"
    by (rule mult_left_mono [OF rq]) simp
  also have "\<dots> = B"
    using n' by (simp add: B_def field_simps)
  finally have y1: "?y \<le> B" .
  have y0: "0 \<le> ?y" using r0 by simp
  have f: "fl ?y \<le> ?y + ?y / 2 ^ 53" using fl_near(2) [OF y0] .
  have d: "?y / 2 ^ 53 \<le> B / 2 ^ 53"
    by (rule divide_right_mono [OF y1]) simp
  have "fl ?y \<le> B + B / 2 ^ 53"
    by (rule order_trans [OF f]) (rule add_mono [OF y1 d])
  also have "\<dots> < 2401" by (simp add: B_def)
  finally have "fl ?y < 2401" .
  then show ?thesis by (simp add: nat_le_iff floor_le_iff)
qed

lemma ratio_of_nonneg: "0 \<le> ratio_of c"
  by (simp add: ratio_of_def fl_nonneg min_def)

lemma ratio_of_le_width: "0 < width c \<Longrightarrow> ratio_of c \<le> fl (2400 / of_nat (width c))"
  by (simp add: ratio_of_def MAX_OCR_DIM_def)

lemma ratio_of_le_height: "0 < height c \<Longrightarrow> ratio_of c \<le> fl (2400 / of_nat (height c))"
  by (simp add: ratio_of_def MAX_OCR_DIM_def)

lemma offscreen_bounded:
  "width (offscreen_of c) \<le> 2400" "height (offscreen_of c) \<le> 2400"
proof -
  show "width (offscreen_of c) \<le> 2400"
  proof (cases "width c = 0")
    case True
    then show ?thesis by (simp add: offscreen_of_def Let_def fl_zero)
  next
    case False
    then have "0 < width c" by simp
    from scaled_le [OF this ratio_of_nonneg ratio_of_le_width [OF this]]
    show ?thesis by (simp add: offscreen_of_def Let_def)
  qed
  show "height (offscreen_of c) \<le> 2400"
  proof (cases "height c = 0")
    case True
    then show ?thesis by (simp add: offscreen_of_def Let_def fl_zero)
  next
    case False
    then have "0 < height c" by simp
    from scaled_le [OF this ratio_of_nonneg ratio_of_le_height [OF this]]
    show ?thesis by (simp add: offscreen_of_def Let_def)
  qed
qed

lemma preprocess_small:
  "width c \<le> 2400 \<Longrightarrow> height c \<le> 2400 \<Longrightarrow> preprocess d c = Inr c"
  by (simp add: preprocess_def MAX_OCR_DIM_def)

lemma preprocess_bounded:
  assumes "preprocess d c = Inr out"
  shows "width out \<le> 2400 \<and> height out \<le> 2400"
proof (cases "MAX_OCR_DIM < width c \<or> MAX_OCR_DIM < height c")
  case True
  then have "out = offscreen_of c"
    using assms by (simp add: preprocess_def split: option.splits)
  then show ?thesis using offscreen_bounded [of c] by simp
next
  case False
  then have "out = c" using assms by (simp add: preprocess_def)
  then show ?thesis using False by (simp add: MAX_OCR_DIM_def)
qed

lemma spec_prepare_eq:
  assumes "0 < width c" "0 < height c" "\<not> (width c \<le> 2400 \<and> height c \<le> 2400)"
  shows "spec_prepare 2400 c = offscreen_of c"
  using assms by (auto simp add: spec_prepare_def offscreen_of_def ratio_of_def MAX_OCR_DIM_def Let_def)

lemma floors_5000_3000:
  "\<lfloor>fl (5000 * min (fl (12 / 25)) (fl (4 / 5)))\<rfloor> = 2400"
  "\<lfloor>fl (3000 * min (fl (12 / 25)) (fl (4 / 5)))\<rfloor> = 1440"
  by code_simp+

lemma offscreen_5000_3000:
  "offscreen_of \<lparr>width = 5000, height = 3000\<rparr> = \<lparr>width = 2400, height = 1440\<rparr>"
  by (simp add: offscreen_of_def ratio_of_def MAX_OCR_DIM_def Let_def floors_5000_3000)

lemma floors_4231_3000:
  "\<lfloor>fl (4231 * min (fl (2400 / 4231)) (fl (4 / 5)))\<rfloor> = 2399"
  "\<lfloor>fl (3000 * min (fl (2400 / 4231)) (fl (4 / 5)))\<rfloor> = 1701"
  by code_simp+

lemma offscreen_4231_3000:
  "offscreen_of \<lparr>width = 4231, height = 3000\<rparr> = \<lparr>width = 2399, height = 1701\<rparr>"
  by (simp add: offscreen_of_def ratio_of_def MAX_OCR_DIM_def Let_def floors_4231_3000)

lemma spec_prepare_4231_3000:
  "spec_prepare 2400 \<lparr>width = 4231, height = 3000\<rparr> = \<lparr>width = 2399, height = 1701\<rparr>"
  by (simp add: spec_prepare_def Let_def floors_4231_3000)

text \<open>
  C8. A surface whose two dimensions are at most 2400 is returned unchanged. A larger one,
  when the DOM calls of the branch succeed, is replaced by a surface of
  \<open>floor(width * ratio)\<close> by \<open>floor(height * ratio)\<close>, the ratio being the smaller
  of \<open>2400 / width\<close> and \<open>2400 / height\<close>, each operation rounded to a double as
  JavaScript does; for positive dimensions that is the surface of the specification's
  formula. Whatever surface the preprocessor returns has both dimensions at most 2400. A
  surface of 5000 by 3000 becomes one of 2400 by 1440, the same 5 to 3.
\<close>

theorem preprocess_bounds_dimensions:
  "(width c \<le> 2400 \<and> height c \<le> 2400 \<longrightarrow> preprocess d c = Inr c)
   \<and> (\<not> (width c \<le> 2400 \<and> height c \<le> 2400) \<and> d c = None \<longrightarrow>
        preprocess d c =
          Inr \<lparr>width = nat \<lfloor>fl (of_nat (width c) * ratio_of c)\<rfloor>,
               height = nat \<lfloor>fl (of_nat (height c) * ratio_of c)\<rfloor>\<rparr>
        \<and> (0 < width c \<and> 0 < height c \<longrightarrow>
             ratio_of c = min (fl (2400 / of_nat (width c))) (fl (2400 / of_nat (height c)))
             \<and> preprocess d c = Inr (spec_prepare 2400 c)))
   \<and> (preprocess d c = Inr out \<longrightarrow> width out \<le> 2400 \<and> height out \<le> 2400)
   \<and> preprocess d' \<lparr>width = 5000, height = 3000\<rparr>
       = (case d' \<lparr>width = 5000, height = 3000\<rparr> of
            None \<Rightarrow> Inr \<lparr>width = 2400, height = 1440\<rparr> | Some err \<Rightarrow> Inl err)"
proof -
  have a: "width c \<le> 2400 \<and> height c \<le> 2400 \<longrightarrow> preprocess d c = Inr c"
    by (simp add: preprocess_def MAX_OCR_DIM_def)
  have b: "\<not> (width c \<le> 2400 \<and> height c \<le> 2400) \<and> d c = None \<longrightarrow>
        preprocess d c =
          Inr \<lparr>width = nat \<lfloor>fl (of_nat (width c) * ratio_of c)\<rfloor>,
               height = nat \<lfloor>fl (of_nat (height c) * ratio_of c)\<rfloor>\<rparr>
        \<and> (0 < width c \<and> 0 < height c \<longrightarrow>
             ratio_of c = min (fl (2400 / of_nat (width c))) (fl (2400 / of_nat (height c)))
             \<and> preprocess d c = Inr (spec_prepare 2400 c))"
  proof (intro impI, elim conjE)
    assume big: "\<not> (width c \<le> 2400 \<and> height c \<le> 2400)" and ok: "d c = None"
    have p: "preprocess d c = Inr (offscreen_of c)"
      using big ok by (auto simp add: preprocess_def MAX_OCR_DIM_def)
    have r: "0 < width c \<and> 0 < height c \<longrightarrow>
        ratio_of c = min (fl (2400 / of_nat (width c))) (fl (2400 / of_nat (height c)))"
      by (simp add: ratio_of_def MAX_OCR_DIM_def)
    show "preprocess d c =
          Inr \<lparr>width = nat \<lfloor>fl (of_nat (width c) * ratio_of c)\<rfloor>,
               height = nat \<lfloor>fl (of_nat (height c) * ratio_of c)\<rfloor>\<rparr>
        \<and> (0 < width c \<and> 0 < height c \<longrightarrow>
             ratio_of c = min (fl (2400 / of_nat (width c))) (fl (2400 / of_nat (height c)))
             \<and> preprocess d c = Inr (spec_prepare 2400 c))"
      using p r spec_prepare_eq [of c, OF _ _ big]
      by (simp add: offscreen_of_def Let_def)
  qed
  have c: "preprocess d c = Inr out \<longrightarrow> width out \<le> 2400 \<and> height out \<le> 2400"
    using preprocess_bounded [of d c out] by blast
  have e: "preprocess d' \<lparr>width = 5000, height = 3000\<rparr>
       = (case d' \<lparr>width = 5000, height = 3000\<rparr> of
            None \<Rightarrow> Inr \<lparr>width = 2400, height = 1440\<rparr> | Some err \<Rightarrow> Inl err)"
    by (simp add: preprocess_def MAX_OCR_DIM_def offscreen_5000_3000 split: option.splits)
  from a b c e show ?thesis by blast
qed

text \<open>
  A small surface, the surface of 5000 by 3000, and one of 4231 by 3000, where the
  rounding of the two operations shows: the width is 2399.
\<close>

theorem preprocess_bounds_dimensions_witness:
  "preprocess (\<lambda>c. None) \<lparr>width = 800, height = 600\<rparr> = Inr \<lparr>width = 800, height = 600\<rparr>
   \<and> preprocess (\<lambda>c. None) \<lparr>width = 4231, height = 3000\<rparr> = Inr \<lparr>width = 2399, height = 1701\<rparr>
   \<and> preprocess (\<lambda>c. None) \<lparr>width = 5000, height = 3000\<rparr> = Inr \<lparr>width = 2400, height = 1440\<rparr>
   \<and> width (spec_prepare 2400 \<lparr>width = 4231, height = 3000\<rparr>) \<le> 2400
   \<and> height (spec_prepare 2400 \<lparr>width = 4231, height = 3000\<rparr>) \<le> 2400"
proof -
  have a: "preprocess (\<lambda>c. None) \<lparr>width = 800, height = 600\<rparr> = Inr \<lparr>width = 800, height = 600\<rparr>"
    by (rule preprocess_bounds_dimensions [THEN conjunct1, THEN mp]) simp
  have b: "preprocess (\<lambda>c. None) \<lparr>width = 4231, height = 3000\<rparr>
      = Inr (spec_prepare 2400 \<lparr>width = 4231, height = 3000\<rparr>)"
    by (rule preprocess_bounds_dimensions
        [THEN conjunct2, THEN conjunct1, THEN mp, THEN conjunct2, THEN mp, THEN conjunct2])
      simp_all
  have c: "preprocess (\<lambda>c. None) \<lparr>width = 5000, height = 3000\<rparr> = Inr \<lparr>width = 2400, height = 1440\<rparr>"
    using preprocess_bounds_dimensions
      [THEN conjunct2, THEN conjunct2, THEN conjunct2, of "\<lambda>c. None"]
    by simp
  have d: "width (spec_prepare 2400 \<lparr>width = 4231, height = 3000\<rparr>) \<le> 2400
      \<and> height (spec_prepare 2400 \<lparr>width = 4231, height = 3000\<rparr>) \<le> 2400"
    by (rule preprocess_bounds_dimensions [THEN conjunct2, THEN conjunct2, THEN conjunct1, THEN mp])
      (rule b)
  show ?thesis using a b c d by (simp add: spec_prepare_4231_3000)
qed

section \<open>Facts about one call\<close>

lemmas store_defs = setOcrResult_def setOcrLoading_def setOcrProgress_def setWorkerReady_def
  setWorkerInitProgress_def addOcrLog_def clearOcrCache_def

lemmas coord_defs = enter_def queue_def start_run_def suspend_def catch_block_def finally_reset_def

lemma caught_simps [simp]:
  "caught None = Returned None" "caught (Some e) = Threw e"
  "caught x \<noteq> Awaiting" "Awaiting \<noteq> caught x"
  by (simp_all add: caught_def split: option.splits)

lemma catch_block_fields [simp]:
  "pendingRef (fst (catch_block r err st)) = pendingRef st"
  "calls (fst (catch_block r err st)) = calls st"
  "inflight (fst (catch_block r err st)) = inflight st"
  "isRunningRef (fst (catch_block r err st)) = isRunningRef st"
  "workerReadyRef (fst (catch_block r err st)) = workerReadyRef st"
  "workerRef (fst (catch_block r err st)) = workerRef st"
  "recognizeCalls (fst (catch_block r err st)) = recognizeCalls st"
  "createWorkerCalls (fst (catch_block r err st)) = createWorkerCalls st"
  "ocrCache (fst (catch_block r err st)) = ocrCache st"
  "timers (fst (catch_block r err st)) = timers st"
  "clock (fst (catch_block r err st)) = clock st"
  "ocrLoading (fst (catch_block r err st)) = ocrLoading st"
  "ocrProgress (fst (catch_block r err st)) = ocrProgress st"
  "domError (fst (catch_block r err st)) = domError st"
  by (simp_all add: catch_block_def addOcrLog_def Let_def split: sum.splits)

lemma catch_block_threw:
  "errText err = Inl thrown \<Longrightarrow> catch_block r err st = (st, Some thrown)"
  by (simp add: catch_block_def)


lemma runOcr_cache_hit:
  "\<not> forceRun r \<Longrightarrow> c_ocrCache cl (cacheKey cl r) = Some v \<Longrightarrow>
   runOcr cl r st =
     (addOcrLog (''OCR skipped '' @ emdash @ '' result cached for page '' @ show_int (pageNumber r))
        (enter r st), Returned (Some v))"
  by (subst runOcr.simps) (simp add: Let_def)

lemma runOcr_not_ready:
  "forceRun r \<or> c_ocrCache cl (cacheKey cl r) = None \<Longrightarrow>
   \<not> workerReadyRef st \<or> workerRef st = None \<Longrightarrow>
   runOcr cl r st =
     (if forceRun r then
        addOcrLog (''Force re-running OCR on page '' @ show_int (pageNumber r)
                   @ '' (queued '' @ emdash @ '' worker not ready)'') (queue r (enter r st))
      else queue r (enter r st), Returned None)"
  by (subst runOcr.simps) (auto simp add: Let_def enter_def)

lemma runOcr_busy:
  "forceRun r \<or> c_ocrCache cl (cacheKey cl r) = None \<Longrightarrow>
   workerReadyRef st \<Longrightarrow> workerRef st \<noteq> None \<Longrightarrow> isRunningRef st \<Longrightarrow>
   runOcr cl r st = (queue r (enter r st), Returned None)"
  by (subst runOcr.simps) (auto simp add: Let_def enter_def)

lemma runOcr_execute:
  "forceRun r \<or> c_ocrCache cl (cacheKey cl r) = None \<Longrightarrow>
   workerReadyRef st \<Longrightarrow> workerRef st \<noteq> None \<Longrightarrow> \<not> isRunningRef st \<Longrightarrow>
   preprocess (domError st) (canvas r) = Inr img \<Longrightarrow>
   runOcr cl r st = (suspend cl r img (start_run r (enter r st)), Awaiting)"
  by (subst runOcr.simps) (auto simp add: Let_def enter_def)

lemma runOcr_sync_fail:
  "forceRun r \<or> c_ocrCache cl (cacheKey cl r) = None \<Longrightarrow>
   workerReadyRef st \<Longrightarrow> workerRef st \<noteq> None \<Longrightarrow> \<not> isRunningRef st \<Longrightarrow>
   preprocess (domError st) (canvas r) = Inl err \<Longrightarrow>
   runOcr cl r st =
     (finally_block cl (fst (catch_block r err (start_run r (enter r st)))),
      caught (snd (catch_block r err (start_run r (enter r st)))))"
  by (subst runOcr.simps) (auto simp add: Let_def enter_def finally_block_def split: option.splits)


lemma catch_block_state:
  "fst (catch_block r err st) = st \<or> (\<exists>m. fst (catch_block r err st) = addOcrLog m st)"
  by (cases "errText err") (auto simp add: catch_block_def)

lemma finally_block_unfold:
  "finally_block cl st =
     (case pendingRef st of
        None \<Rightarrow> finally_reset st
      | Some p \<Rightarrow> fst (runOcr cl p (finally_reset st\<lparr>pendingRef := None\<rparr>)))"
  by (simp add: finally_block_def finally_reset_def store_defs Let_def split: option.splits)

text \<open>
  A call through the branches of \<^verbatim>\<open>runOcr\<close>: a quantity that none of the steps of a
  call changes is the same after the call.
\<close>

lemma runOcr_frame:
  fixes f :: "state \<Rightarrow> 'a"
  assumes a: "\<And>m st. f (addOcrLog m st) = f st"
    and e: "\<And>r st. f (enter r st) = f st"
    and q: "\<And>r st. f (queue r st) = f st"
    and sr: "\<And>r st. f (start_run r st) = f st"
    and su: "\<And>cl r img st. f (suspend cl r img st) = f st"
    and fr: "\<And>st. f (finally_reset st) = f st"
    and pn: "\<And>st. f (st\<lparr>pendingRef := None\<rparr>) = f st"
  shows "f (fst (runOcr cl r st)) = f st"
proof (induction cl r st rule: runOcr.induct)
  case (1 cl r st0)
  let ?st = "enter r st0"
  show ?case
  proof (cases "\<not> forceRun r \<and> c_ocrCache cl (cacheKey cl r) \<noteq> None")
    case True
    then obtain v where "\<not> forceRun r" "c_ocrCache cl (cacheKey cl r) = Some v" by auto
    then show ?thesis by (simp add: runOcr_cache_hit a e)
  next
    case nohit: False
    then have h: "forceRun r \<or> c_ocrCache cl (cacheKey cl r) = None" by auto
    show ?thesis
    proof (cases "\<not> workerReadyRef ?st \<or> workerRef ?st = None")
      case True
      then have "\<not> workerReadyRef st0 \<or> workerRef st0 = None" by (simp add: enter_def)
      then show ?thesis by (simp add: runOcr_not_ready [OF h] a e q)
    next
      case rdy: False
      then have r1: "workerReadyRef st0" and r2: "workerRef st0 \<noteq> None"
        by (simp_all add: enter_def)
      show ?thesis
      proof (cases "isRunningRef ?st")
        case True
        then have "isRunningRef st0" by (simp add: enter_def)
        then show ?thesis by (simp add: runOcr_busy [OF h r1 r2] e q)
      next
        case idle: False
        then have i0: "\<not> isRunningRef st0" by (simp add: enter_def)
        show ?thesis
        proof (cases "preprocess (domError ?st) (canvas r)")
          case (Inr img)
          then have "preprocess (domError st0) (canvas r) = Inr img" by (simp add: enter_def)
          then show ?thesis by (simp add: runOcr_execute [OF h r1 r2 i0] e sr su)
        next
          case (Inl err)
          then have p0: "preprocess (domError st0) (canvas r) = Inl err" by (simp add: enter_def)
          let ?cb = "catch_block r err (start_run r ?st)"
          let ?st' = "finally_reset (fst ?cb)"
          have cb: "f (fst ?cb) = f st0"
            using catch_block_state [of r err "start_run r ?st"] by (auto simp add: a e sr)
          have eq: "fst (runOcr cl r st0) = finally_block cl (fst ?cb)"
            by (simp add: runOcr_sync_fail [OF h r1 r2 i0 p0])
          show ?thesis
          proof (cases "pendingRef ?st'")
            case None
            then have "pendingRef (fst ?cb) = None" by (simp add: finally_reset_def store_defs)
            then show ?thesis by (simp add: eq finally_block_unfold fr cb)
          next
            case (Some p)
            have "f (fst (runOcr cl p (?st'\<lparr>pendingRef := None\<rparr>))) = f (?st'\<lparr>pendingRef := None\<rparr>)"
              by (rule "1.IH" [OF refl refl nohit rdy idle Inl refl refl Some])
            moreover have "pendingRef (fst ?cb) = Some p"
              using Some by (simp add: finally_reset_def store_defs)
            ultimately show ?thesis by (simp add: eq finally_block_unfold fr pn cb)
          qed
        qed
      qed
    qed
  qed
qed

lemma runOcr_ocrCache: "ocrCache (fst (runOcr cl r st)) = ocrCache st"
  by (rule runOcr_frame) (simp_all add: coord_defs store_defs Let_def)

lemma runOcr_workerReadyRef: "workerReadyRef (fst (runOcr cl r st)) = workerReadyRef st"
  by (rule runOcr_frame) (simp_all add: coord_defs store_defs Let_def)

lemma runOcr_workerRef: "workerRef (fst (runOcr cl r st)) = workerRef st"
  by (rule runOcr_frame) (simp_all add: coord_defs store_defs Let_def)

lemma runOcr_timers: "timers (fst (runOcr cl r st)) = timers st"
  by (rule runOcr_frame) (simp_all add: coord_defs store_defs Let_def)


text \<open>A call that starts with an empty pending slot does not call \<^verbatim>\<open>runOcr\<close> again.\<close>

lemma runOcr_no_pending_cases:
  assumes "pendingRef st = None"
  obtains v where "\<not> forceRun r" "c_ocrCache cl (cacheKey cl r) = Some v"
      "runOcr cl r st =
        (addOcrLog (''OCR skipped '' @ emdash @ '' result cached for page ''
           @ show_int (pageNumber r)) (enter r st), Returned (Some v))"
  | "runOcr cl r st = (queue r (enter r st), Returned None)"
  | m where "runOcr cl r st = (addOcrLog m (queue r (enter r st)), Returned None)"
  | img where "runOcr cl r st = (suspend cl r img (start_run r (enter r st)), Awaiting)"
  | err where
      "runOcr cl r st =
        (finally_reset (fst (catch_block r err (start_run r (enter r st)))),
         caught (snd (catch_block r err (start_run r (enter r st)))))"
proof (cases "\<not> forceRun r \<and> c_ocrCache cl (cacheKey cl r) \<noteq> None")
  case True
  then obtain v where v: "\<not> forceRun r" "c_ocrCache cl (cacheKey cl r) = Some v" by auto
  then show ?thesis using that(1) runOcr_cache_hit [OF v] by blast
next
  case False
  then have h: "forceRun r \<or> c_ocrCache cl (cacheKey cl r) = None" by auto
  show ?thesis
  proof (cases "\<not> workerReadyRef st \<or> workerRef st = None")
    case True
    show ?thesis
      using that(2,3) runOcr_not_ready [OF h True] by (cases "forceRun r") auto
  next
    case False
    then have r1: "workerReadyRef st" and r2: "workerRef st \<noteq> None" by auto
    show ?thesis
    proof (cases "isRunningRef st")
      case True
      show ?thesis using that(2) runOcr_busy [OF h r1 r2 True] by blast
    next
      case idle: False
      show ?thesis
      proof (cases "preprocess (domError st) (canvas r)")
        case (Inr img)
        show ?thesis using that(4) runOcr_execute [OF h r1 r2 idle Inr] by blast
      next
        case (Inl err)
        have "pendingRef (fst (catch_block r err (start_run r (enter r st)))) = None"
          using assms by (simp add: start_run_def enter_def store_defs Let_def)
        then have "finally_block cl (fst (catch_block r err (start_run r (enter r st))))
            = finally_reset (fst (catch_block r err (start_run r (enter r st))))"
          by (simp add: finally_block_unfold)
        then show ?thesis using that(5) runOcr_sync_fail [OF h r1 r2 idle Inl] by simp
      qed
    qed
  qed
qed

lemma runOcr_calls_no_pending:
  assumes "pendingRef st = None"
  shows "calls (fst (runOcr cl r st)) = calls st @ [r]"
  by (rule runOcr_no_pending_cases [OF assms, of r cl])
    (simp_all add: enter_def queue_def start_run_def suspend_def finally_reset_def store_defs Let_def)


lemma runOcr_while_running:
  assumes "isRunningRef st" "forceRun r \<or> c_ocrCache cl (cacheKey cl r) = None"
  shows "snd (runOcr cl r st) = Returned None"
    and "pendingRef (fst (runOcr cl r st)) = Some r"
    and "isRunningRef (fst (runOcr cl r st))"
    and "inflight (fst (runOcr cl r st)) = inflight st"
    and "recognizeCalls (fst (runOcr cl r st)) = recognizeCalls st"
proof -
  show "snd (runOcr cl r st) = Returned None"
    using assms by (subst runOcr.simps) (auto simp add: Let_def enter_def)
  show "pendingRef (fst (runOcr cl r st)) = Some r"
    using assms by (subst runOcr.simps) (auto simp add: Let_def enter_def queue_def addOcrLog_def)
  show "isRunningRef (fst (runOcr cl r st))"
    using assms by (subst runOcr.simps) (auto simp add: Let_def enter_def queue_def addOcrLog_def)
  show "inflight (fst (runOcr cl r st)) = inflight st"
    using assms by (subst runOcr.simps) (auto simp add: Let_def enter_def queue_def addOcrLog_def)
  show "recognizeCalls (fst (runOcr cl r st)) = recognizeCalls st"
    using assms by (subst runOcr.simps) (auto simp add: Let_def enter_def queue_def addOcrLog_def)
qed

lemma not_ready_fields:
  assumes "\<not> workerReadyRef st \<or> workerRef st = None"
    "forceRun r \<or> c_ocrCache cl (cacheKey cl r) = None"
  shows "snd (runOcr cl r st) = Returned None"
    and "pendingRef (fst (runOcr cl r st)) = Some r"
    and "ocrLog (fst (runOcr cl r st)) =
          (if forceRun r then
             take 50 ((''['' @ clock st @ ''] Force re-running OCR on page ''
               @ show_int (pageNumber r) @ '' (queued '' @ emdash @ '' worker not ready)'')
               # ocrLog st)
           else ocrLog st)"
    and "recognizeCalls (fst (runOcr cl r st)) = recognizeCalls st"
    and "inflight (fst (runOcr cl r st)) = inflight st"
    and "timers (fst (runOcr cl r st)) = timers st"
  by (simp_all add: runOcr_not_ready [OF assms(2) assms(1)] queue_def enter_def addOcrLog_def Let_def)


section \<open>Facts about the completion of a recognition\<close>

lemma finally_reset_fields:
  "isRunningRef (finally_reset st) = False" "ocrProgress (finally_reset st) = Pct 0"
  "ocrLoading (finally_reset st) = False" "pendingRef (finally_reset st) = pendingRef st"
  "calls (finally_reset st) = calls st" "recognizeCalls (finally_reset st) = recognizeCalls st"
  by (simp_all add: finally_reset_def store_defs)

lemma finally_block_no_pending:
  assumes "pendingRef st = None"
  shows "finally_block cl st = finally_reset st"
  using assms by (simp add: finally_block_def finally_reset_def store_defs Let_def)

lemma finally_block_pending:
  assumes "pendingRef st = Some p"
  shows "finally_block cl st = fst (runOcr cl p (finally_reset st\<lparr>pendingRef := None\<rparr>))"
  using assms by (simp add: finally_block_def finally_reset_def store_defs Let_def)

lemma finally_block_ocrCache: "ocrCache (finally_block cl st) = ocrCache st"
  by (simp add: finally_block_def Let_def runOcr_ocrCache finally_reset_def store_defs
      split: option.splits)




lemma resume_as_finally:
  "fst (resume j res st) =
     finally_block (j_closure j)
       (case res of Inr text \<Rightarrow> fst (try_tail j text st)
        | Inl err \<Rightarrow> fst (catch_block (j_request j) err st))"
  by (cases res) (simp_all add: resume_def split_beta)

lemma try_catch_fields:
  "pendingRef (case res of Inr text \<Rightarrow> fst (try_tail j text st)
                | Inl err \<Rightarrow> fst (catch_block (j_request j) err st)) = pendingRef st"
  "calls (case res of Inr text \<Rightarrow> fst (try_tail j text st)
                | Inl err \<Rightarrow> fst (catch_block (j_request j) err st)) = calls st"
  by (cases res; simp add: try_tail_def store_defs Let_def)+

lemma resume_ocrCache_failed: "ocrCache (fst (resume j (Inl err) st)) = ocrCache st"
  by (simp add: resume_def split_beta finally_block_ocrCache)



lemma resume_failed_value:
  "errText err = Inr s \<Longrightarrow> snd (resume j (Inl err) st) = Inr None"
  "errText err = Inl thrown \<Longrightarrow> snd (resume j (Inl err) st) = Inl thrown"
  by (simp_all add: resume_def catch_block_def)


lemma completion_idle:
  assumes "pendingRef st = None"
  shows "isRunningRef (fst (resume j res st)) = False"
    and "ocrProgress (fst (resume j res st)) = Pct 0"
    and "ocrLoading (fst (resume j res st)) = False"
    and "pendingRef (fst (resume j res st)) = None"
    and "calls (fst (resume j res st)) = calls st"
  using assms
  by (simp_all add: resume_as_finally finally_block_no_pending try_catch_fields
      finally_reset_fields)

lemma completion_drains:
  assumes "pendingRef st = Some p"
  shows "\<exists>mid. isRunningRef mid = False \<and> ocrLoading mid = False \<and> ocrProgress mid = Pct 0
           \<and> pendingRef mid = None
           \<and> calls mid = calls st
           \<and> fst (resume j res st) = fst (runOcr (j_closure j) p mid)"
    and "calls (fst (resume j res st)) = calls st @ [p]"
proof -
  let ?x = "case res of Inr text \<Rightarrow> fst (try_tail j text st)
              | Inl err \<Rightarrow> fst (catch_block (j_request j) err st)"
  let ?mid = "finally_reset ?x\<lparr>pendingRef := None\<rparr>"
  have px: "pendingRef ?x = Some p" using assms by (simp add: try_catch_fields)
  have eq: "fst (resume j res st) = fst (runOcr (j_closure j) p ?mid)"
    by (simp add: resume_as_finally finally_block_pending [OF px])
  have m: "isRunningRef ?mid = False" "ocrProgress ?mid = Pct 0" "pendingRef ?mid = None"
    "calls ?mid = calls st" "ocrLoading ?mid = False"
    by (simp_all add: finally_reset_fields try_catch_fields)
  show "\<exists>mid. isRunningRef mid = False \<and> ocrLoading mid = False \<and> ocrProgress mid = Pct 0
           \<and> pendingRef mid = None
           \<and> calls mid = calls st
           \<and> fst (resume j res st) = fst (runOcr (j_closure j) p mid)"
    using m eq by blast
  show "calls (fst (resume j res st)) = calls st @ [p]"
    using runOcr_calls_no_pending [OF m(3), of "j_closure j" p] m(4) eq by simp
qed

lemma inflight_try_tail: "inflight (fst (try_tail j text st)) = inflight st"
  by (simp add: try_tail_def Let_def store_defs)

lemma inflight_catch_block: "inflight (fst (catch_block r err st)) = inflight st"
  by simp

text \<open>
  A log line among the newest 48 is still in the log after a call of \<^verbatim>\<open>runOcr\<close> that
  starts with an empty pending slot: such a call adds at most two lines.
\<close>

lemma runOcr_log_keeps:
  assumes "pendingRef st = None" "x \<in> set (take 48 (ocrLog st))"
  shows "x \<in> set (ocrLog (fst (runOcr cl r st)))"
proof -
  have x49: "x \<in> set (take 49 (ocrLog st))"
    using assms(2) set_take_subset_set_take [of 48 49 "ocrLog st"] by auto
  have x50: "x \<in> set (ocrLog st)"
    using assms(2) by (rule in_set_takeD)
  have cb: "x \<in> set (take 49 (ocrLog st)) \<Longrightarrow> x \<in> set (ocrLog (fst (catch_block r err st)))"
    for r err st
    using catch_block_state [of r err st] set_take_subset [of 49 "ocrLog st"]
    by (auto simp add: addOcrLog_def Let_def)
  have sr: "x \<in> set (take 49 (ocrLog (start_run r (enter r st))))"
    using assms(2) by (simp add: start_run_def enter_def store_defs Let_def)
  show ?thesis
    by (rule runOcr_no_pending_cases [OF assms(1), of r cl])
      (use x49 x50 cb [OF sr] in
        \<open>simp_all add: enter_def queue_def start_run_def suspend_def finally_reset_def store_defs
           Let_def\<close>)
qed

lemma finally_block_log_keeps:
  assumes "x \<in> set (take 48 (ocrLog st))"
  shows "x \<in> set (ocrLog (finally_block cl st))"
proof (cases "pendingRef st")
  case None
  then show ?thesis using assms
    by (auto simp add: finally_block_def finally_reset_def store_defs Let_def dest: in_set_takeD)
next
  case (Some p)
  have "x \<in> set (ocrLog (fst (runOcr cl p (finally_reset st\<lparr>pendingRef := None\<rparr>))))"
    by (rule runOcr_log_keeps) (simp_all add: finally_reset_def store_defs assms)
  then show ?thesis using Some
    by (simp add: finally_block_def finally_reset_def store_defs Let_def)
qed

lemma catch_block_log:
  "errText err = Inr s \<Longrightarrow>
   (''['' @ clock st @ ''] Error during OCR on page '' @ show_int (pageNumber r) @ '': '' @ s)
     \<in> set (take 48 (ocrLog (fst (catch_block r err st))))"
  by (simp add: catch_block_def store_defs Let_def)

lemma resume_failed_log:
  assumes "errText err = Inr s"
  shows "(''['' @ clock st @ ''] Error during OCR on page '' @ show_int (pageNumber (j_request j))
      @ '': '' @ s) \<in> set (ocrLog (fst (resume j (Inl err) st)))"
proof -
  have "(''['' @ clock st @ ''] Error during OCR on page '' @ show_int (pageNumber (j_request j))
      @ '': '' @ s)
      \<in> set (ocrLog (finally_block (j_closure j) (fst (catch_block (j_request j) err st))))"
    by (rule finally_block_log_keeps) (rule catch_block_log [OF assms])
  then show ?thesis by (simp add: resume_def split_beta)
qed

lemma clock_start_run: "clock (start_run r (enter r st)) = clock st"
  by (simp add: coord_defs store_defs Let_def)

lemma sync_fail_fields:
  assumes "forceRun r \<or> c_ocrCache cl (cacheKey cl r) = None"
    "workerReadyRef st" "workerRef st \<noteq> None" "\<not> isRunningRef st"
    "preprocess (domError st) (canvas r) = Inl err"
  shows "errText err = Inr s \<Longrightarrow> snd (runOcr cl r st) = Returned None"
    and "errText err = Inr s \<Longrightarrow>
         (''['' @ clock st @ ''] Error during OCR on page '' @ show_int (pageNumber r) @ '': '' @ s)
           \<in> set (ocrLog (fst (runOcr cl r st)))"
    and "errText err = Inl thrown \<Longrightarrow> snd (runOcr cl r st) = Threw thrown"
    and "recognizeCalls (fst (runOcr cl r st)) = recognizeCalls st \<or> pendingRef st \<noteq> None"
proof -
  note eq = runOcr_sync_fail [OF assms]
  show "errText err = Inr s \<Longrightarrow> snd (runOcr cl r st) = Returned None"
    by (simp add: eq catch_block_def)
  show "errText err = Inl thrown \<Longrightarrow> snd (runOcr cl r st) = Threw thrown"
    by (simp add: eq catch_block_def)
  show "(''['' @ clock st @ ''] Error during OCR on page '' @ show_int (pageNumber r) @ '': '' @ s)
          \<in> set (ocrLog (fst (runOcr cl r st)))" if t: "errText err = Inr s"
  proof -
    have "(''['' @ clock (start_run r (enter r st)) @ ''] Error during OCR on page ''
        @ show_int (pageNumber r) @ '': '' @ s)
        \<in> set (ocrLog (finally_block cl (fst (catch_block r err (start_run r (enter r st))))))"
      by (rule finally_block_log_keeps) (rule catch_block_log [OF t])
    then show ?thesis by (simp add: eq clock_start_run)
  qed
  show "recognizeCalls (fst (runOcr cl r st)) = recognizeCalls st \<or> pendingRef st \<noteq> None"
    by (cases "pendingRef st")
      (simp_all add: eq finally_block_def enter_def queue_def start_run_def suspend_def
        finally_reset_def store_defs Let_def)
qed

section \<open>The run-state invariant is kept\<close>

lemma inv_enter [simp]: "run_state_ok (enter r st) = run_state_ok st"
  by (simp add: run_state_ok_def enter_def)

lemma inv_calls_update [simp]: "run_state_ok (st\<lparr>calls := c\<rparr>) = run_state_ok st"
  by (simp add: run_state_ok_def)

lemma inv_queue [simp]: "run_state_ok (queue r st) = run_state_ok st"
  by (simp add: run_state_ok_def queue_def)

lemma inv_addOcrLog [simp]: "run_state_ok (addOcrLog m st) = run_state_ok st"
  by (simp add: run_state_ok_def addOcrLog_def Let_def)

lemma inv_pendingRef_update [simp]: "run_state_ok (st\<lparr>pendingRef := p\<rparr>) = run_state_ok st"
  by (simp add: run_state_ok_def)

lemma inv_suspend: "run_state_ok st \<Longrightarrow> \<not> isRunningRef st \<Longrightarrow> run_state_ok (suspend cl r img (start_run r st))"
  by (simp add: run_state_ok_def suspend_def start_run_def store_defs Let_def)

lemma inv_sync_fail:
  "run_state_ok st \<Longrightarrow> \<not> isRunningRef st \<Longrightarrow>
   run_state_ok (finally_reset (fst (catch_block r err (start_run r st))))"
  by (simp add: run_state_ok_def finally_reset_def start_run_def store_defs Let_def)

lemma runOcr_inv: "run_state_ok st \<Longrightarrow> run_state_ok (fst (runOcr cl r st))"
proof (induction cl r st rule: runOcr.induct)
  case (1 cl r st0)
  let ?st = "enter r st0"
  have i: "run_state_ok ?st" using "1.prems" by (simp del: inv_enter add: run_state_ok_def enter_def)
  show ?case
  proof (cases "\<not> forceRun r \<and> c_ocrCache cl (cacheKey cl r) \<noteq> None")
    case True
    then show ?thesis using i by (subst runOcr.simps) (auto simp add: Let_def enter_def)
  next
    case nohit: False
    show ?thesis
    proof (cases "\<not> workerReadyRef ?st \<or> workerRef ?st = None")
      case True
      then show ?thesis using nohit i by (subst runOcr.simps) (auto simp add: Let_def enter_def)
    next
      case rdy: False
      show ?thesis
      proof (cases "isRunningRef ?st")
        case True
        then show ?thesis using nohit rdy i by (subst runOcr.simps) (auto simp add: Let_def enter_def)
      next
        case idle: False
        show ?thesis
        proof (cases "preprocess (domError ?st) (canvas r)")
          case (Inr img)
          then show ?thesis using nohit rdy idle i
            by (subst runOcr.simps) (auto simp add: Let_def enter_def inv_suspend)
        next
          case (Inl err)
          let ?st' = "finally_reset (fst (catch_block r err (start_run r ?st)))"
          have i': "run_state_ok ?st'" using i idle by (rule inv_sync_fail)
          show ?thesis
          proof (cases "pendingRef ?st'")
            case None
            then show ?thesis using nohit rdy idle Inl i'
              by (subst runOcr.simps) (auto simp add: Let_def enter_def)
          next
            case (Some p)
            have "run_state_ok (fst (runOcr cl p (?st'\<lparr>pendingRef := None\<rparr>)))"
              using "1.IH" [OF refl refl nohit rdy idle Inl refl refl Some] i' by simp
            then show ?thesis using nohit rdy idle Inl Some
              by (subst runOcr.simps) (auto simp add: Let_def enter_def)
          qed
        qed
      qed
    qed
  qed
qed

lemma finally_block_inv: "inflight st = [] \<Longrightarrow> run_state_ok (finally_block cl st)"
proof -
  assume e: "inflight st = []"
  have i: "run_state_ok (finally_reset st)"
    using e by (simp add: run_state_ok_def finally_reset_def store_defs)
  show ?thesis
    using i runOcr_inv [of "finally_reset st\<lparr>pendingRef := None\<rparr>" cl]
    by (simp add: finally_block_def Let_def split: option.splits)
qed

lemma resume_inv: "inflight st = [] \<Longrightarrow> run_state_ok (fst (resume j res st))"
  using inflight_try_tail [of j _ st]
  by (cases res)
    (simp_all add: resume_def split_beta Let_def finally_block_inv inflight_catch_block)

lemma init_inv:
  "run_state_ok (initWorker lang st) = run_state_ok st"
  "run_state_ok (initWorker_terminated lang st) = run_state_ok st"
  "run_state_ok (initWorker_created lang w st) = run_state_ok st"
  "run_state_ok (fst (initWorker_failed err st)) = run_state_ok st"
  "run_state_ok (logger m st) = run_state_ok st"
  "run_state_ok (clearOcrCache st) = run_state_ok st"
  by (simp_all add: run_state_ok_def initWorker_def initWorker_terminated_def initWorker_created_def
      initWorker_failed_def initWorker_announce_def logger_def store_defs Let_def
      split: option.splits prod.splits sum.splits)

lemma step_inv: "run_state_ok st \<Longrightarrow> run_state_ok (step e st)"
proof (cases e)
  case (Call cl r)
  assume "run_state_ok st"
  then show ?thesis using Call by (simp add: runOcr_inv)
next
  case (Settle n res)
  assume i: "run_state_ok st"
  show ?thesis
  proof (cases "n < length (inflight st)")
    case True
    then have "take n (inflight st) @ drop (Suc n) (inflight st) = []"
      using i by (simp add: run_state_ok_def)
    then show ?thesis using Settle True by (simp add: resume_inv)
  next
    case False
    then show ?thesis using Settle i by simp
  qed
next
  case (Timeout cl)
  assume i: "run_state_ok st"
  show ?thesis
  proof (cases "timers st")
    case Nil
    then show ?thesis using Timeout i by simp
  next
    case (Cons p ps)
    have "run_state_ok (st\<lparr>timers := ps\<rparr>)" using i by (simp add: run_state_ok_def)
    then show ?thesis using Timeout Cons by (simp add: runOcr_inv)
  qed
qed (simp_all add: init_inv, simp add: run_state_ok_def)

lemma run_inv: "run_state_ok st \<Longrightarrow> run_state_ok (run es st)"
  by (induction es arbitrary: st) (simp_all add: step_inv)

lemma initial_inv: "run_state_ok (initial now d)"
  by (simp add: run_state_ok_def initial_def)

section \<open>Facts about the steps\<close>







lemma failed_threw:
  assumes "errText err = Inl thrown"
  shows "ocrLog (fst (initWorker_failed err st)) = ocrLog st"
    and "snd (initWorker_failed err st) = Some thrown"
  using assms by (simp_all add: initWorker_failed_def store_defs Let_def)

lemma created_fields:
  "workerReadyRef (initWorker_created lang w st)"
  "workerRef (initWorker_created lang w st) = Some w"
  "pendingRef (initWorker_created lang w st) = None"
  "timers (initWorker_created lang w st)
     = (case pendingRef st of None \<Rightarrow> timers st | Some p \<Rightarrow> timers st @ [p])"
  "calls (initWorker_created lang w st) = calls st"
  "recognizeCalls (initWorker_created lang w st) = recognizeCalls st"
  "inflight (initWorker_created lang w st) = inflight st"
  "createWorkerCalls (initWorker_created lang w st) = createWorkerCalls st"
  by (simp_all add: initWorker_created_def store_defs Let_def split: option.splits)

lemma initial_fields:
  "\<not> workerReadyRef (initial now d)" "pendingRef (initial now d) = None"
  "ocrLog (initial now d) = []" "timers (initial now d) = []" "calls (initial now d) = []"
  "recognizeCalls (initial now d) = []" "inflight (initial now d) = []"
  "createWorkerCalls (initial now d) = []" "workerRef (initial now d) = None"
  "clock (initial now d) = now" "domError (initial now d) = d"
  "ocrCache (initial now d) = (\<lambda>k. None)" "\<not> isRunningRef (initial now d)"
  by (simp_all add: initial_def)


lemma latest_wins:
  assumes run: "isRunningRef st"
    and h1: "forceRun r \<or> c_ocrCache cl (cacheKey cl r) = None"
    and h2: "forceRun r2 \<or> c_ocrCache cl2 (cacheKey cl2 r2) = None"
  shows "pendingRef (run [Call cl r, Call cl2 r2] st) = Some r2"
    and "recognizeCalls (run [Call cl r, Call cl2 r2] st) = recognizeCalls st"
    and "inflight (run [Call cl r, Call cl2 r2] st) = inflight st"
    and "(run [Call cl r, Call cl2 r2] st)\<lparr>calls := c, ocrLog := l\<rparr>
         = (run [Call cl2 r2] st)\<lparr>calls := c, ocrLog := l\<rparr>"
proof -
  let ?s1 = "fst (runOcr cl r st)"
  note a = runOcr_while_running [OF run h1]
  note b = runOcr_while_running [OF a(3) h2]
  show "pendingRef (run [Call cl r, Call cl2 r2] st) = Some r2"
    using b(2) by simp
  show "recognizeCalls (run [Call cl r, Call cl2 r2] st) = recognizeCalls st"
    using a(5) b(5) by simp
  show "inflight (run [Call cl r, Call cl2 r2] st) = inflight st"
    using a(4) b(4) by simp
  show "(run [Call cl r, Call cl2 r2] st)\<lparr>calls := c, ocrLog := l\<rparr>
         = (run [Call cl2 r2] st)\<lparr>calls := c, ocrLog := l\<rparr>"
  proof (cases "\<not> workerReadyRef st \<or> workerRef st = None")
    case True
    then have t1: "\<not> workerReadyRef ?s1 \<or> workerRef ?s1 = None"
      by (simp add: runOcr_workerReadyRef runOcr_workerRef)
    have e1: "?s1 = (if forceRun r then
        addOcrLog (''Force re-running OCR on page '' @ show_int (pageNumber r)
                   @ '' (queued '' @ emdash @ '' worker not ready)'') (queue r (enter r st))
      else queue r (enter r st))"
      by (simp add: runOcr_not_ready [OF h1 True])
    show ?thesis
      by (simp add: runOcr_not_ready [OF h2 t1] runOcr_not_ready [OF h2 True])
        (simp add: e1 queue_def enter_def addOcrLog_def Let_def)
  next
    case False
    then have r0: "workerReadyRef st" "workerRef st \<noteq> None" by simp_all
    have r1: "workerReadyRef ?s1" "workerRef ?s1 \<noteq> None"
      using r0 by (simp_all add: runOcr_workerReadyRef runOcr_workerRef)
    have e1: "?s1 = queue r (enter r st)"
      by (simp add: runOcr_busy [OF h1 r0 run])
    show ?thesis
      by (simp add: runOcr_busy [OF h2 r1 a(3)] runOcr_busy [OF h2 r0 run])
        (simp add: e1 queue_def enter_def)
  qed
qed

section \<open>Calls of \<^verbatim>\<open>createWorker\<close>\<close>



section \<open>A recognition from start to end\<close>



section \<open>The \<^verbatim>\<open>finally\<close> block after a failed preprocessing\<close>

lemma sync_completion_idle:
  assumes h: "forceRun r \<or> c_ocrCache cl (cacheKey cl r) = None"
    and rdy: "workerReadyRef st" "workerRef st \<noteq> None" "\<not> isRunningRef st"
    and pre: "preprocess (domError st) (canvas r) = Inl err"
    and np: "pendingRef st = None"
  shows "isRunningRef (fst (runOcr cl r st)) = False"
    and "ocrProgress (fst (runOcr cl r st)) = Pct 0"
    and "ocrLoading (fst (runOcr cl r st)) = False"
    and "pendingRef (fst (runOcr cl r st)) = None"
    and "calls (fst (runOcr cl r st)) = calls st @ [r]"
proof -
  let ?x = "fst (catch_block r err (start_run r (enter r st)))"
  have px: "pendingRef ?x = None"
    using np by (simp add: start_run_def enter_def store_defs Let_def)
  have cx: "calls ?x = calls st @ [r]"
    by (simp add: start_run_def enter_def store_defs Let_def)
  have eq: "fst (runOcr cl r st) = finally_reset ?x"
    by (simp add: runOcr_sync_fail [OF h rdy pre] finally_block_no_pending [OF px])
  show "isRunningRef (fst (runOcr cl r st)) = False"
    and "ocrProgress (fst (runOcr cl r st)) = Pct 0"
    and "ocrLoading (fst (runOcr cl r st)) = False"
    and "pendingRef (fst (runOcr cl r st)) = None"
    and "calls (fst (runOcr cl r st)) = calls st @ [r]"
    using px cx by (simp_all add: eq finally_reset_fields)
qed

lemma sync_completion_drains:
  assumes h: "forceRun r \<or> c_ocrCache cl (cacheKey cl r) = None"
    and rdy: "workerReadyRef st" "workerRef st \<noteq> None" "\<not> isRunningRef st"
    and pre: "preprocess (domError st) (canvas r) = Inl err"
    and pp: "pendingRef st = Some p"
  shows "\<exists>mid. isRunningRef mid = False \<and> ocrLoading mid = False \<and> ocrProgress mid = Pct 0
           \<and> pendingRef mid = None
           \<and> calls mid = calls st @ [r]
           \<and> fst (runOcr cl r st) = fst (runOcr cl p mid)"
    and "calls (fst (runOcr cl r st)) = calls st @ [r, p]"
proof -
  let ?x = "fst (catch_block r err (start_run r (enter r st)))"
  let ?mid = "finally_reset ?x\<lparr>pendingRef := None\<rparr>"
  have px: "pendingRef ?x = Some p"
    using pp by (simp add: start_run_def enter_def store_defs Let_def)
  have cx: "calls ?x = calls st @ [r]"
    by (simp add: start_run_def enter_def store_defs Let_def)
  have eq: "fst (runOcr cl r st) = fst (runOcr cl p ?mid)"
    by (simp add: runOcr_sync_fail [OF h rdy pre] finally_block_pending [OF px])
  have m: "isRunningRef ?mid = False" "ocrProgress ?mid = Pct 0" "pendingRef ?mid = None"
    "calls ?mid = calls st @ [r]" "ocrLoading ?mid = False"
    using cx by (simp_all add: finally_reset_fields)
  show "\<exists>mid. isRunningRef mid = False \<and> ocrLoading mid = False \<and> ocrProgress mid = Pct 0
           \<and> pendingRef mid = None
           \<and> calls mid = calls st @ [r]
           \<and> fst (runOcr cl r st) = fst (runOcr cl p mid)"
    using m eq by blast
  show "calls (fst (runOcr cl r st)) = calls st @ [r, p]"
    using runOcr_calls_no_pending [OF m(3), of cl p] m(4) eq by simp
qed

section \<open>The concrete states\<close>

lemma show_int_3: "show_int 3 = ''3''"
  by code_simp

lemma show_int_7: "show_int 7 = ''7''"
  by code_simp

lemma toFixed2_1: "toFixed2 1 = ''1.00''"
  by code_simp



lemma ready_state_fields:
  "workerReadyRef ready_state" "workerRef ready_state = Some 0" "\<not> isRunningRef ready_state"
  "pendingRef ready_state = None" "inflight ready_state = []" "recognizeCalls ready_state = []"
  "domError ready_state = (\<lambda>c. None)" "ocrCache ready_state = (\<lambda>k. None)"
  "calls ready_state = []" "timers ready_state = []"
  by (simp_all add: ready_state_def initial_def initWorker_def initWorker_announce_def initWorker_created_def store_defs Let_def)

lemma busy_state_eq:
  "busy_state = suspend first_render page7 (canvas page7) (start_run page7 (enter page7 ready_state))"
proof -
  have "runOcr first_render page7 ready_state
    = (suspend first_render page7 (canvas page7) (start_run page7 (enter page7 ready_state)), Awaiting)"
    by (rule runOcr_execute)
      (simp_all add: ready_state_fields first_render_def preprocess_small page7_def)
  then show ?thesis by (simp add: busy_state_def)
qed

lemma busy_state_fields:
  "workerReadyRef busy_state" "workerRef busy_state = Some 0" "isRunningRef busy_state"
  "pendingRef busy_state = None" "length (inflight busy_state) = 1"
  "recognizeCalls busy_state = [canvas page7]"
  by (simp_all add: busy_state_eq coord_defs store_defs Let_def ready_state_fields)

lemma key7: "cacheKey first_render page7 = ''7:1.00:eng''"
  by (simp add: cacheKey_def first_render_def page7_def show_int_7 toFixed2_1)

lemma busy_state_more:
  "inflight busy_state = [job7]" "clock busy_state = ''12:00:00''"
  "ocrCache busy_state = (\<lambda>k. None)" "calls busy_state = [page7]"
  by (simp_all add: busy_state_eq coord_defs store_defs Let_def ready_state_fields job7_def key7
      ready_state_def initial_def initWorker_def initWorker_announce_def initWorker_created_def)



lemma broken_state_fields:
  "workerReadyRef (ready_state\<lparr>domError := broken_dom\<rparr>)"
  "workerRef (ready_state\<lparr>domError := broken_dom\<rparr>) \<noteq> None"
  "\<not> isRunningRef (ready_state\<lparr>domError := broken_dom\<rparr>)"
  "preprocess (domError (ready_state\<lparr>domError := broken_dom\<rparr>)) (canvas big_page) = Inl type_error"
  "forceRun big_page"
  "clock (ready_state\<lparr>domError := broken_dom\<rparr>) = ''12:00:00''"
  by (simp_all add: ready_state_fields preprocess_def MAX_OCR_DIM_def big_page_def broken_dom_def
      ready_state_def initial_def initWorker_def initWorker_announce_def initWorker_created_def store_defs Let_def)

lemma queued_state_eq:
  "queued_state = queue page3 (enter page3 (initial ''12:00:00'' (\<lambda>c. None)))"
proof -
  have "runOcr first_render page3 (initial ''12:00:00'' (\<lambda>c. None))
      = (queue page3 (enter page3 (initial ''12:00:00'' (\<lambda>c. None))), Returned None)"
    using runOcr_not_ready [of page3 first_render "initial ''12:00:00'' (\<lambda>c. None)"]
    by (simp add: initial_fields first_render_def page3_def)
  then show ?thesis by (simp add: queued_state_def)
qed

lemma queued_state_fields:
  "pendingRef queued_state = Some page3" "timers queued_state = []" "calls queued_state = [page3]"
  "recognizeCalls queued_state = []" "ocrLog queued_state = []"
  by (simp_all add: queued_state_eq queue_def enter_def initial_fields)

lemma pending_busy:
  "pendingRef (fst (runOcr first_render page3 busy_state)) = Some page3"
  "calls (fst (runOcr first_render page3 busy_state)) = [page7, page3]"
  using runOcr_busy [of page3 first_render busy_state]
  by (simp_all add: busy_state_fields busy_state_more first_render_def page3_def queue_def enter_def)









section \<open>Cache hits\<close>




section \<open>At most one recognition in flight, one pending slot\<close>

text \<open>
  C2, as the code has it. In every state the hook reaches from its initial state, at most
  one activation of \<^verbatim>\<open>runOcr\<close> is suspended on the engine, and \<^verbatim>\<open>isRunningRef\<close> is
  set exactly when one is; the pending slot is a single optional request. A call that
  arrives while \<^verbatim>\<open>isRunningRef\<close> is set and that is not served from the cache (it is a
  forced call, or the captured cache has no entry for its key) returns \<^verbatim>\<open>null\<close>, leaves
  its own arguments in the pending slot in place of whatever was there, and neither invokes
  the engine nor touches the suspended activation. Of two such calls in a row the second
  one's request is the pending one, and the hook is in the state it would be in had the
  first call not been made, but for the record of calls and the log.
\<close>

theorem one_in_flight_latest_pending:
  "length (inflight (run es (initial now d))) \<le> 1
   \<and> (isRunningRef (run es (initial now d)) \<longleftrightarrow> inflight (run es (initial now d)) \<noteq> [])
   \<and> (isRunningRef st \<and> (forceRun r \<or> c_ocrCache cl (cacheKey cl r) = None) \<longrightarrow>
        snd (runOcr cl r st) = Returned None
        \<and> pendingRef (fst (runOcr cl r st)) = Some r
        \<and> isRunningRef (fst (runOcr cl r st))
        \<and> inflight (fst (runOcr cl r st)) = inflight st
        \<and> recognizeCalls (fst (runOcr cl r st)) = recognizeCalls st)
   \<and> (isRunningRef st \<and> (forceRun r \<or> c_ocrCache cl (cacheKey cl r) = None)
        \<and> (forceRun r2 \<or> c_ocrCache cl2 (cacheKey cl2 r2) = None) \<longrightarrow>
        pendingRef (run [Call cl r, Call cl2 r2] st) = Some r2
        \<and> recognizeCalls (run [Call cl r, Call cl2 r2] st) = recognizeCalls st
        \<and> inflight (run [Call cl r, Call cl2 r2] st) = inflight st
        \<and> (run [Call cl r, Call cl2 r2] st)\<lparr>calls := c, ocrLog := l\<rparr>
            = (run [Call cl2 r2] st)\<lparr>calls := c, ocrLog := l\<rparr>)"
proof -
  have "run_state_ok (run es (initial now d))"
    by (rule run_inv) (rule initial_inv)
  then have a: "length (inflight (run es (initial now d))) \<le> 1
      \<and> (isRunningRef (run es (initial now d)) \<longleftrightarrow> inflight (run es (initial now d)) \<noteq> [])"
    by (simp add: run_state_ok_def)
  have b: "isRunningRef st \<and> (forceRun r \<or> c_ocrCache cl (cacheKey cl r) = None) \<longrightarrow>
        snd (runOcr cl r st) = Returned None
        \<and> pendingRef (fst (runOcr cl r st)) = Some r
        \<and> isRunningRef (fst (runOcr cl r st))
        \<and> inflight (fst (runOcr cl r st)) = inflight st
        \<and> recognizeCalls (fst (runOcr cl r st)) = recognizeCalls st"
    using runOcr_while_running [of st r cl] by blast
  have c: "isRunningRef st \<and> (forceRun r \<or> c_ocrCache cl (cacheKey cl r) = None)
        \<and> (forceRun r2 \<or> c_ocrCache cl2 (cacheKey cl2 r2) = None) \<longrightarrow>
        pendingRef (run [Call cl r, Call cl2 r2] st) = Some r2
        \<and> recognizeCalls (run [Call cl r, Call cl2 r2] st) = recognizeCalls st
        \<and> inflight (run [Call cl r, Call cl2 r2] st) = inflight st
        \<and> (run [Call cl r, Call cl2 r2] st)\<lparr>calls := c, ocrLog := l\<rparr>
            = (run [Call cl2 r2] st)\<lparr>calls := c, ocrLog := l\<rparr>"
    using latest_wins(1,2,3) [of st r cl r2 cl2] latest_wins(4) [where st = st and r = r and cl = cl and ?r2.0 = r2 and ?cl2.0 = cl2 and c = c and l = l]
    by blast
  from a b c show ?thesis by blast
qed

text \<open>
  The state while page 7 is being recognized is reached by two events; a call for page 3
  through the first render's closure is queued there.
\<close>

theorem one_in_flight_latest_pending_witness:
  "length (inflight busy_state) \<le> 1
   \<and> isRunningRef busy_state
   \<and> c_ocrCache first_render (cacheKey first_render page3) = None
   \<and> snd (runOcr first_render page3 busy_state) = Returned None
   \<and> pendingRef (fst (runOcr first_render page3 busy_state)) = Some page3
   \<and> recognizeCalls (fst (runOcr first_render page3 busy_state)) = recognizeCalls busy_state
   \<and> pendingRef (run [Call first_render page3, Call first_render page7] busy_state) = Some page7
   \<and> recognizeCalls (run [Call first_render page3, Call first_render page7] busy_state)
       = recognizeCalls busy_state"
  using one_in_flight_latest_pending
    [of "[Init ''eng'', Created ''eng'' 0, Call first_render page7]" "''12:00:00''" "\<lambda>c. None"
      busy_state page3 first_render page7 first_render]
  by (simp add: busy_state_fields first_render_def)

text \<open>
  C2 as stated lets every call that arrives during a recognition overwrite the pending slot
  and return \<^verbatim>\<open>null\<close>. The cache test of line 133 comes first: a call for page 3
  through a closure that has page 3 in its cache returns the cached text and leaves the
  pending slot alone.
\<close>

theorem cached_call_while_running_counterexample:
  "isRunningRef busy_state
   \<and> snd (runOcr later_render page3 busy_state) = Returned (Some ''Hello'')
   \<and> pendingRef (fst (runOcr later_render page3 busy_state)) = None"
proof -
  have k: "cacheKey later_render page3 = ''3:1.00:eng''"
    by (simp add: cacheKey_def later_render_def page3_def show_int_3 toFixed2_1)
  have "runOcr later_render page3 busy_state =
     (addOcrLog (''OCR skipped '' @ emdash @ '' result cached for page '' @ show_int (pageNumber page3))
        (enter page3 busy_state), Returned (Some ''Hello''))"
    by (rule runOcr_cache_hit) (simp_all add: k, simp_all add: page3_def later_render_def)
  then show ?thesis
    by (simp add: busy_state_fields addOcrLog_def enter_def Let_def)
qed

section \<open>Failures\<close>

text \<open>
  No stretch of \<^verbatim>\<open>runOcr\<close> before its \<^verbatim>\<open>await\<close> writes the cache, and neither does
  the rest of an activation whose recognition was rejected. When the thrown value is one
  that \<^verbatim>\<open>errMsg\<close> and the template literal turn into a text, the call resolves to
  \<^verbatim>\<open>null\<close> and the log holds the line \<open>Error during OCR on page N: text\<close>.
\<close>

lemma failure_with_text_returns_null:
  assumes "errText err = Inr s"
  shows "(forceRun r \<or> c_ocrCache cl (cacheKey cl r) = None) \<and> workerReadyRef st
      \<and> workerRef st \<noteq> None \<and> \<not> isRunningRef st
      \<and> preprocess (domError st) (canvas r) = Inl err \<longrightarrow>
        snd (runOcr cl r st) = Returned None
        \<and> (''['' @ clock st @ ''] Error during OCR on page '' @ show_int (pageNumber r) @ '': ''
             @ s) \<in> set (ocrLog (fst (runOcr cl r st)))"
    and "snd (resume j (Inl err) st) = Inr None"
    and "(''['' @ clock st @ ''] Error during OCR on page '' @ show_int (pageNumber (j_request j))
        @ '': '' @ s) \<in> set (ocrLog (fst (resume j (Inl err) st)))"
  using sync_fail_fields(1,2) [of r cl st err s] resume_failed_log [OF assms, of st j]
    resume_failed_value(1) [OF assms, of j st] assms
  by blast+

lemma failure_leaves_cache:
  "ocrCache (fst (runOcr cl r st)) = ocrCache st"
  "ocrCache (fst (resume j (Inl err) st)) = ocrCache st"
  by (simp_all add: runOcr_ocrCache resume_ocrCache_failed)

text \<open>
  C3 at values for which it fails. The engine rejects the recognition of page 7 with the
  object \<^verbatim>\<open>{ message: Symbol('x') }\<close>: \<^verbatim>\<open>errMsg\<close> returns the message, the symbol,
  which the template literal of line 197 cannot convert, so the \<^verbatim>\<open>catch\<close> block
  throws a \<^verbatim>\<open>TypeError\<close>. The \<^verbatim>\<open>finally\<close> block runs, the promise of the call is
  rejected with the \<^verbatim>\<open>TypeError\<close>, and the log is as it was before: no line tells of
  the error. Likewise, when the preprocessing of a forced call throws an object whose
  \<^verbatim>\<open>message\<close> accessor throws the string \<open>boom\<close>, \<^verbatim>\<open>errMsg\<close> throws it and the
  promise of the call is rejected with \<open>boom\<close>.
\<close>

theorem unconvertible_error_escapes_catch:
  "step (Settle 0 (Inl symbol_message)) busy_state
     = fst (resume job7 (Inl symbol_message) (busy_state\<lparr>inflight := []\<rparr>))
   \<and> snd (resume job7 (Inl symbol_message) (busy_state\<lparr>inflight := []\<rparr>)) = Inl cannot_convert
   \<and> ocrLog (fst (resume job7 (Inl symbol_message) (busy_state\<lparr>inflight := []\<rparr>)))
       = ocrLog busy_state
   \<and> isRunningRef (fst (resume job7 (Inl symbol_message) (busy_state\<lparr>inflight := []\<rparr>))) = False
   \<and> preprocess (\<lambda>c. Some throwing_getter) (canvas big_page) = Inl throwing_getter
   \<and> snd (runOcr first_render big_page (ready_state\<lparr>domError := \<lambda>c. Some throwing_getter\<rparr>))
       = Threw (JStr ''boom'')"
proof -
  let ?b = "busy_state\<lparr>inflight := []\<rparr>"
  have c: "catch_block page7 symbol_message ?b = (?b, Some cannot_convert)"
    by (rule catch_block_threw) (rule errText_values)
  have f: "finally_block first_render ?b = finally_reset ?b"
    by (rule finally_block_no_pending) (simp add: busy_state_fields)
  have r: "resume job7 (Inl symbol_message) ?b = (finally_reset ?b, Inl cannot_convert)"
    by (simp add: resume_def job7_def c f)
  have p: "preprocess (\<lambda>c. Some throwing_getter) (canvas big_page) = Inl throwing_getter"
    by (simp add: preprocess_def MAX_OCR_DIM_def big_page_def)
  have s: "snd (runOcr first_render big_page (ready_state\<lparr>domError := \<lambda>c. Some throwing_getter\<rparr>))
       = Threw (JStr ''boom'')"
    by (rule sync_fail_fields(3) [where err = throwing_getter])
      (simp_all add: ready_state_fields big_page_def p [unfolded big_page_def, simplified]
        errText_values)
  show ?thesis
    using p s by (simp add: r busy_state_more finally_reset_def store_defs)
qed

section \<open>Requests made while the worker is not ready\<close>

text \<open>
  C4. A call that arrives while the worker is not ready (the readiness ref unset, or no
  worker) and that is not served from the cache returns \<^verbatim>\<open>null\<close>, leaves its arguments
  in the pending slot in place of whatever was there, logs one line when it is forced and
  nothing otherwise, and does not reach the engine. When \<^verbatim>\<open>createWorker\<close> then resolves
  with a request pending, the slot is emptied and exactly one timer callback is scheduled,
  for that request; nothing is called within \<^verbatim>\<open>initWorker\<close> itself, and the callback,
  when it runs, is one call of \<^verbatim>\<open>runOcr\<close> with the request. Without a pending request
  no callback is scheduled.
\<close>

theorem not_ready_queues_then_replays:
  "((\<not> workerReadyRef st \<or> workerRef st = None)
      \<and> (forceRun r \<or> c_ocrCache cl (cacheKey cl r) = None) \<longrightarrow>
        snd (runOcr cl r st) = Returned None
        \<and> pendingRef (fst (runOcr cl r st)) = Some r
        \<and> ocrLog (fst (runOcr cl r st)) =
            (if forceRun r then
               take 50 ((''['' @ clock st @ ''] Force re-running OCR on page ''
                 @ show_int (pageNumber r) @ '' (queued '' @ emdash @ '' worker not ready)'')
                 # ocrLog st)
             else ocrLog st)
        \<and> recognizeCalls (fst (runOcr cl r st)) = recognizeCalls st
        \<and> inflight (fst (runOcr cl r st)) = inflight st
        \<and> timers (fst (runOcr cl r st)) = timers st)
   \<and> (pendingRef st = Some p \<longrightarrow>
        pendingRef (initWorker_created lang w st) = None
        \<and> timers (initWorker_created lang w st) = timers st @ [p]
        \<and> calls (initWorker_created lang w st) = calls st
        \<and> recognizeCalls (initWorker_created lang w st) = recognizeCalls st
        \<and> inflight (initWorker_created lang w st) = inflight st
        \<and> (timers st = [] \<longrightarrow>
             step (Timeout cl0) (initWorker_created lang w st)
               = fst (runOcr cl0 p (initWorker_created lang w st\<lparr>timers := []\<rparr>))))
   \<and> (pendingRef st = None \<longrightarrow> timers (initWorker_created lang w st) = timers st)"
proof -
  have a: "(\<not> workerReadyRef st \<or> workerRef st = None)
      \<and> (forceRun r \<or> c_ocrCache cl (cacheKey cl r) = None) \<longrightarrow>
        snd (runOcr cl r st) = Returned None
        \<and> pendingRef (fst (runOcr cl r st)) = Some r
        \<and> ocrLog (fst (runOcr cl r st)) =
            (if forceRun r then
               take 50 ((''['' @ clock st @ ''] Force re-running OCR on page ''
                 @ show_int (pageNumber r) @ '' (queued '' @ emdash @ '' worker not ready)'')
                 # ocrLog st)
             else ocrLog st)
        \<and> recognizeCalls (fst (runOcr cl r st)) = recognizeCalls st
        \<and> inflight (fst (runOcr cl r st)) = inflight st
        \<and> timers (fst (runOcr cl r st)) = timers st"
    using not_ready_fields [of st r cl] by blast
  have b: "pendingRef st = Some p \<longrightarrow>
        pendingRef (initWorker_created lang w st) = None
        \<and> timers (initWorker_created lang w st) = timers st @ [p]
        \<and> calls (initWorker_created lang w st) = calls st
        \<and> recognizeCalls (initWorker_created lang w st) = recognizeCalls st
        \<and> inflight (initWorker_created lang w st) = inflight st
        \<and> (timers st = [] \<longrightarrow>
             step (Timeout cl0) (initWorker_created lang w st)
               = fst (runOcr cl0 p (initWorker_created lang w st\<lparr>timers := []\<rparr>)))"
    by (simp add: created_fields)
  have c: "pendingRef st = None \<longrightarrow> timers (initWorker_created lang w st) = timers st"
    by (simp add: created_fields)
  from a b c show ?thesis by blast
qed

text \<open>
  A call for page 3 before the first worker exists, and the creation of the worker after
  it.
\<close>

theorem not_ready_queues_then_replays_witness:
  "\<not> workerReadyRef (initial ''12:00:00'' (\<lambda>c. None))
   \<and> snd (runOcr first_render page3 (initial ''12:00:00'' (\<lambda>c. None))) = Returned None
   \<and> pendingRef (fst (runOcr first_render page3 (initial ''12:00:00'' (\<lambda>c. None)))) = Some page3
   \<and> ocrLog (fst (runOcr first_render page3 (initial ''12:00:00'' (\<lambda>c. None)))) = []
   \<and> pendingRef (initial ''12:00:00'' (\<lambda>c. None)) = None
   \<and> timers (initWorker_created ''eng'' 0 (initial ''12:00:00'' (\<lambda>c. None))) = []
   \<and> pendingRef queued_state = Some page3
   \<and> pendingRef (initWorker_created ''eng'' 0 queued_state) = None
   \<and> timers (initWorker_created ''eng'' 0 queued_state) = [page3]
   \<and> calls (initWorker_created ''eng'' 0 queued_state) = [page3]
   \<and> recognizeCalls (initWorker_created ''eng'' 0 queued_state) = []
   \<and> step (Timeout first_render) (initWorker_created ''eng'' 0 queued_state)
       = fst (runOcr first_render page3 (initWorker_created ''eng'' 0 queued_state\<lparr>timers := []\<rparr>))"
  using not_ready_queues_then_replays
      [of "initial ''12:00:00'' (\<lambda>c. None)" page3 first_render]
    not_ready_queues_then_replays
      [of queued_state page3 first_render page3 "''eng''" 0 first_render]
  by (simp add: initial_fields queued_state_fields first_render_def page3_def)

section \<open>Completion\<close>

text \<open>
  C5. An executed recognition completes in one of three ways: its recognition resolves,
  its recognition is rejected, or its preprocessing throws before the engine is reached;
  in the last two the \<^verbatim>\<open>catch\<close> block runs first and may itself throw. In each of
  them the \<^verbatim>\<open>finally\<close> block runs. With no request pending, the hook ends idle
  (\<^verbatim>\<open>isRunningRef\<close> unset, the loading flag unset, the progress 0, the slot empty) and
  \<^verbatim>\<open>runOcr\<close> is not called again; with a request \<open>p\<close> pending, the final state is
  that of one call of \<^verbatim>\<open>runOcr\<close> on \<open>p\<close> from a state that is idle, with the
  loading flag unset, the progress 0 and the slot empty, and that call is the only one
  added to the record of calls.
\<close>

theorem completion_resets_and_drains:
  "(pendingRef st = None \<longrightarrow>
      isRunningRef (fst (resume j res st)) = False
      \<and> ocrProgress (fst (resume j res st)) = Pct 0
      \<and> ocrLoading (fst (resume j res st)) = False
      \<and> pendingRef (fst (resume j res st)) = None
      \<and> calls (fst (resume j res st)) = calls st)
   \<and> (pendingRef st = Some p \<longrightarrow>
      (\<exists>mid. isRunningRef mid = False \<and> ocrLoading mid = False \<and> ocrProgress mid = Pct 0
           \<and> pendingRef mid = None
           \<and> calls mid = calls st
           \<and> fst (resume j res st) = fst (runOcr (j_closure j) p mid))
      \<and> calls (fst (resume j res st)) = calls st @ [p])
   \<and> ((forceRun r \<or> c_ocrCache cl (cacheKey cl r) = None) \<and> workerReadyRef st
      \<and> workerRef st \<noteq> None \<and> \<not> isRunningRef st
      \<and> preprocess (domError st) (canvas r) = Inl err \<and> pendingRef st = None \<longrightarrow>
      isRunningRef (fst (runOcr cl r st)) = False
      \<and> ocrProgress (fst (runOcr cl r st)) = Pct 0
      \<and> ocrLoading (fst (runOcr cl r st)) = False
      \<and> pendingRef (fst (runOcr cl r st)) = None
      \<and> calls (fst (runOcr cl r st)) = calls st @ [r])
   \<and> ((forceRun r \<or> c_ocrCache cl (cacheKey cl r) = None) \<and> workerReadyRef st
      \<and> workerRef st \<noteq> None \<and> \<not> isRunningRef st
      \<and> preprocess (domError st) (canvas r) = Inl err \<and> pendingRef st = Some p \<longrightarrow>
      (\<exists>mid. isRunningRef mid = False \<and> ocrLoading mid = False \<and> ocrProgress mid = Pct 0
           \<and> pendingRef mid = None
           \<and> calls mid = calls st @ [r]
           \<and> fst (runOcr cl r st) = fst (runOcr cl p mid))
      \<and> calls (fst (runOcr cl r st)) = calls st @ [r, p])"
proof -
  have a: "pendingRef st = None \<longrightarrow>
      isRunningRef (fst (resume j res st)) = False
      \<and> ocrProgress (fst (resume j res st)) = Pct 0
      \<and> ocrLoading (fst (resume j res st)) = False
      \<and> pendingRef (fst (resume j res st)) = None
      \<and> calls (fst (resume j res st)) = calls st"
    using completion_idle [of st j res] by blast
  have b: "pendingRef st = Some p \<longrightarrow>
      (\<exists>mid. isRunningRef mid = False \<and> ocrLoading mid = False \<and> ocrProgress mid = Pct 0
           \<and> pendingRef mid = None
           \<and> calls mid = calls st
           \<and> fst (resume j res st) = fst (runOcr (j_closure j) p mid))
      \<and> calls (fst (resume j res st)) = calls st @ [p]"
    using completion_drains [of st p j res] by blast
  have c: "(forceRun r \<or> c_ocrCache cl (cacheKey cl r) = None) \<and> workerReadyRef st
      \<and> workerRef st \<noteq> None \<and> \<not> isRunningRef st
      \<and> preprocess (domError st) (canvas r) = Inl err \<and> pendingRef st = None \<longrightarrow>
      isRunningRef (fst (runOcr cl r st)) = False
      \<and> ocrProgress (fst (runOcr cl r st)) = Pct 0
      \<and> ocrLoading (fst (runOcr cl r st)) = False
      \<and> pendingRef (fst (runOcr cl r st)) = None
      \<and> calls (fst (runOcr cl r st)) = calls st @ [r]"
    using sync_completion_idle [of r cl st err] by blast
  have d: "(forceRun r \<or> c_ocrCache cl (cacheKey cl r) = None) \<and> workerReadyRef st
      \<and> workerRef st \<noteq> None \<and> \<not> isRunningRef st
      \<and> preprocess (domError st) (canvas r) = Inl err \<and> pendingRef st = Some p \<longrightarrow>
      (\<exists>mid. isRunningRef mid = False \<and> ocrLoading mid = False \<and> ocrProgress mid = Pct 0
           \<and> pendingRef mid = None
           \<and> calls mid = calls st @ [r]
           \<and> fst (runOcr cl r st) = fst (runOcr cl p mid))
      \<and> calls (fst (runOcr cl r st)) = calls st @ [r, p]"
    using sync_completion_drains [of r cl st err p] by blast
  from a b c d show ?thesis by blast
qed

text \<open>
  The recognition of page 7 resolving with nothing pending; rejected with page 3 pending;
  rejected, with page 3 pending, by a value on which the \<^verbatim>\<open>catch\<close> block throws; a
  forced call for a page of 5000 by 3000 in a browser that gives no 2D context; and the
  same call with page 3 in the pending slot.
\<close>

theorem completion_resets_and_drains_witness:
  "pendingRef (busy_state\<lparr>inflight := []\<rparr>) = None
   \<and> isRunningRef (fst (resume job7 (Inr ''Hello'') (busy_state\<lparr>inflight := []\<rparr>))) = False
   \<and> ocrProgress (fst (resume job7 (Inr ''Hello'') (busy_state\<lparr>inflight := []\<rparr>))) = Pct 0
   \<and> pendingRef (fst (resume job7 (Inr ''Hello'') (busy_state\<lparr>inflight := []\<rparr>))) = None
   \<and> calls (fst (resume job7 (Inr ''Hello'') (busy_state\<lparr>inflight := []\<rparr>))) = [page7]
   \<and> pendingRef (fst (runOcr first_render page3 busy_state)\<lparr>inflight := []\<rparr>) = Some page3
   \<and> calls (fst (resume job7 (Inl JNull)
               (fst (runOcr first_render page3 busy_state)\<lparr>inflight := []\<rparr>)))
       = [page7, page3, page3]
   \<and> calls (fst (resume job7 (Inl symbol_message)
               (fst (runOcr first_render page3 busy_state)\<lparr>inflight := []\<rparr>)))
       = [page7, page3, page3]
   \<and> preprocess (domError (ready_state\<lparr>domError := broken_dom\<rparr>)) (canvas big_page)
       = Inl type_error
   \<and> isRunningRef (fst (runOcr first_render big_page (ready_state\<lparr>domError := broken_dom\<rparr>)))
       = False
   \<and> ocrProgress (fst (runOcr first_render big_page (ready_state\<lparr>domError := broken_dom\<rparr>)))
       = Pct 0
   \<and> calls (fst (runOcr first_render big_page (ready_state\<lparr>domError := broken_dom\<rparr>)))
       = [big_page]
   \<and> calls (fst (runOcr first_render big_page
               (ready_state\<lparr>domError := broken_dom, pendingRef := Some page3\<rparr>)))
       = [big_page, page3]"
  using completion_resets_and_drains
      [where st = "busy_state\<lparr>inflight := []\<rparr>" and j = job7 and res = "Inr ''Hello''"
        and r = page3 and cl = first_render and err = JNull]
    completion_resets_and_drains
      [where st = "fst (runOcr first_render page3 busy_state)\<lparr>inflight := []\<rparr>" and j = job7
        and res = "Inl JNull" and p = page3 and r = page3 and cl = first_render and err = JNull]
    completion_resets_and_drains
      [where st = "fst (runOcr first_render page3 busy_state)\<lparr>inflight := []\<rparr>" and j = job7
        and res = "Inl symbol_message" and p = page3 and r = page3 and cl = first_render
        and err = JNull]
    completion_resets_and_drains
      [where st = "ready_state\<lparr>domError := broken_dom\<rparr>" and j = job7 and res = "Inl JNull"
        and r = big_page and cl = first_render and err = type_error]
    completion_resets_and_drains
      [where st = "ready_state\<lparr>domError := broken_dom, pendingRef := Some page3\<rparr>"
        and j = job7 and res = "Inl JNull" and r = big_page and cl = first_render
        and err = type_error and p = page3]
    broken_state_fields
  by (simp add: busy_state_fields busy_state_more pending_busy ready_state_fields)

section \<open>Never processed and no text found\<close>




section \<open>Failed initialization\<close>









end
